theory Spec2Isabelle
  imports Main "HOL-Library.Sublist"
begin

text \<open>
  A model of \<open>TailEase.js\<close>, the command-line tool that asks for a project name, has
  \<open>npm create vite\<close> generate the project, installs the dependencies and Tailwind CSS,
  patches \<open>vite.config.js\<close> by two text replacements and overwrites two CSS files. The
  string operations of the patch are functions on texts; the run is a function on a state
  that holds the answers still to come, the files and the trace of everything the program
  did. The subprocesses and the file system are parameters.
\<close>

section \<open>JavaScript strings\<close>

text \<open>
  A JavaScript string is modelled as a \<^typ>\<open>string\<close>: a list of code units, here the code
  units below 256. \<open>String.prototype.trim\<close> and the regular-expression class \<open>\s\<close> use the
  same set, WhiteSpace and LineTerminator of ECMAScript; its members below 256 are TAB, LF,
  VT, FF, CR, SPACE and NO-BREAK SPACE.
\<close>

definition is_space :: "char \<Rightarrow> bool" where
  "is_space c = (c \<in> set [CHR 0x09, CHR 0x0A, CHR 0x0B, CHR 0x0C, CHR 0x0D, CHR 0x20, CHR 0xA0])"

definition trim :: "string \<Rightarrow> string" where
  \<comment> \<open>\<open>ans.trim()\<close>: white space removed at both ends.\<close>
  "trim s = rev (dropWhile is_space (rev (dropWhile is_space s)))"

fun indexOf :: "string \<Rightarrow> string \<Rightarrow> nat option" where
  \<comment> \<open>StringIndexOf from position 0: the least index at which \<open>p\<close> occurs in \<open>s\<close>;
      \<open>None\<close> is the result -1.\<close>
  "indexOf [] p = (if p = [] then Some 0 else None)"
| "indexOf (c # cs) p =
     (if prefix p (c # cs) then Some 0 else map_option Suc (indexOf cs p))"

definition includes_str :: "string \<Rightarrow> string \<Rightarrow> bool" where
  \<comment> \<open>\<open>s.includes(p)\<close>\<close>
  "includes_str s p = (indexOf s p \<noteq> None)"

definition replace_str :: "string \<Rightarrow> string \<Rightarrow> string \<Rightarrow> string" where
  \<comment> \<open>\<open>s.replace(p, r)\<close> with a string pattern: only the first occurrence is replaced.
      The replacement texts of the program contain no \<open>$\<close>, so they are taken literally.\<close>
  "replace_str s p r =
     (case indexOf s p of
        None \<Rightarrow> s
      | Some i \<Rightarrow> take i s @ r @ drop (i + length p) s)"

definition match_plugins :: "string \<Rightarrow> nat option" where
  \<comment> \<open>The regular expression \<open>/plugins:\s*\[/\<close> anchored at the start of \<open>s\<close>: the length
      of the match. \<open>[\<close> is no white space, so the greedy \<open>\s*\<close> never has to give back.\<close>
  "match_plugins s =
     (if prefix ''plugins:'' s then
        (let rest = drop 8 s in
         case dropWhile is_space rest of
           [] \<Rightarrow> None
         | c # _ \<Rightarrow>
             if c = CHR ''['' then Some (8 + length (takeWhile is_space rest) + 1) else None)
      else None)"

fun search_plugins :: "string \<Rightarrow> (nat \<times> nat) option" where
  \<comment> \<open>The first match of \<open>/plugins:\s*\[/\<close> in \<open>s\<close>: its index and its length.\<close>
  "search_plugins [] = None"
| "search_plugins (c # cs) =
     (case match_plugins (c # cs) of
        Some n \<Rightarrow> Some (0, n)
      | None \<Rightarrow> map_option (\<lambda>(i, n). (Suc i, n)) (search_plugins cs))"

definition replace_plugins :: "string \<Rightarrow> string \<Rightarrow> string" where
  \<comment> \<open>\<open>s.replace(/plugins:\s*\[/, r)\<close>: the regular expression has no \<open>g\<close> flag, so only
      the first match is replaced.\<close>
  "replace_plugins s r =
     (case search_plugins s of
        None \<Rightarrow> s
      | Some (i, n) \<Rightarrow> take i s @ r @ drop (i + n) s)"

section \<open>Step 4: the patch of vite.config.js\<close>

definition REACT_IMPORT :: string where
  "REACT_IMPORT = ''import react from '@vitejs/plugin-react'' @ [CHR 0x27]"

definition TAILWIND_IMPORT :: string where
  "TAILWIND_IMPORT = ''import tailwindcss from '@tailwindcss/vite'' @ [CHR 0x27]"

definition TAILWIND_CALL :: string where
  "TAILWIND_CALL = ''tailwindcss()''"

definition PLUGINS_ENTRY :: string where
  "PLUGINS_ENTRY = ''plugins: [\<newline>    tailwindcss(),''"

definition BOTH_IMPORTS :: string where
  \<comment> \<open>The replacement text of the first insertion: the react import, a line feed and the
      tailwind import.\<close>
  "BOTH_IMPORTS = REACT_IMPORT @ ''\<newline>'' @ TAILWIND_IMPORT"

definition patch_import :: "string \<Rightarrow> string" where
  \<comment> \<open>The first guarded insertion (lines 133 to 138).\<close>
  "patch_import config =
     (if \<not> includes_str config TAILWIND_IMPORT
      then replace_str config REACT_IMPORT BOTH_IMPORTS
      else config)"

definition patch_plugins :: "string \<Rightarrow> string" where
  \<comment> \<open>The second guarded insertion (lines 140 to 145).\<close>
  "patch_plugins config =
     (if \<not> includes_str config TAILWIND_CALL
      then replace_plugins config PLUGINS_ENTRY
      else config)"

definition patch_config :: "string \<Rightarrow> string" where
  \<comment> \<open>What step 4 writes back for the text it has read.\<close>
  "patch_config config = patch_plugins (patch_import config)"

definition insert_text :: "string \<Rightarrow> nat \<Rightarrow> string \<Rightarrow> string" where
  \<comment> \<open>\<open>s\<close> with \<open>t\<close> put in at index \<open>k\<close>, nothing removed: the vocabulary in which the
      theorems describe an insertion.\<close>
  "insert_text s k t = take k s @ t @ drop k s"

definition INSERTED_IMPORT :: string where
  \<comment> \<open>What the first replacement adds behind the react import.\<close>
  "INSERTED_IMPORT = ''\<newline>'' @ TAILWIND_IMPORT"

definition INSERTED_ENTRY :: string where
  \<comment> \<open>What the second replacement adds behind \<open>plugins: [\<close>.\<close>
  "INSERTED_ENTRY = ''\<newline>    tailwindcss(),''"

section \<open>Paths\<close>

text \<open>
  \<open>path.join\<close> belongs to Node, not to the repository. It is modelled for POSIX from Node's
  documentation: the non-empty arguments are joined with \<open>/\<close> and the result is
  normalized, which drops empty and \<open>.\<close> segments and resolves each \<open>..\<close> against the
  segment before it.
\<close>

fun split_on :: "char \<Rightarrow> string \<Rightarrow> string list" where
  "split_on d [] = [[]]"
| "split_on d (c # cs) =
     (if c = d then [] # split_on d cs
      else (case split_on d cs of
              [] \<Rightarrow> [[c]]
            | x # xs \<Rightarrow> (c # x) # xs))"

fun join_with :: "string \<Rightarrow> string list \<Rightarrow> string" where
  "join_with sep [] = []"
| "join_with sep [x] = x"
| "join_with sep (x # y # ys) = x @ sep @ join_with sep (y # ys)"

fun normalize_segments :: "bool \<Rightarrow> string list \<Rightarrow> string list \<Rightarrow> string list" where
  \<comment> \<open>\<open>normalizeString\<close>: \<open>res\<close> holds the segments kept so far.\<close>
  "normalize_segments allowAboveRoot res [] = res"
| "normalize_segments allowAboveRoot res (seg # segs) =
     (if seg = [] \<or> seg = ''.'' then normalize_segments allowAboveRoot res segs
      else if seg = ''..'' then
        (if res \<noteq> [] \<and> last res \<noteq> ''..''
         then normalize_segments allowAboveRoot (butlast res) segs
         else if allowAboveRoot then normalize_segments allowAboveRoot (res @ [''..'']) segs
         else normalize_segments allowAboveRoot res segs)
      else normalize_segments allowAboveRoot (res @ [seg]) segs)"

definition normalize :: "string \<Rightarrow> string" where
  "normalize p =
     (if p = [] then ''.''
      else
        (let isAbsolute = (hd p = CHR ''/'');
             trailingSeparator = (last p = CHR ''/'');
             path = join_with ''/''
                      (normalize_segments (\<not> isAbsolute) [] (split_on CHR ''/'' p))
         in if path = [] then
              (if isAbsolute then ''/'' else if trailingSeparator then ''./'' else ''.'')
            else (if isAbsolute then ''/'' else []) @ path
                 @ (if trailingSeparator then ''/'' else [])))"

definition path_join :: "string list \<Rightarrow> string" where
  "path_join args =
     (let parts = filter (\<lambda>a. a \<noteq> []) args
      in if parts = [] then ''.'' else normalize (join_with ''/'' parts))"

section \<open>The run: events, environment and state\<close>

datatype error =
    ExecSyncFailed               \<comment> \<open>what \<open>execSync\<close> throws\<close>
  | CommandFailed "int option"   \<comment> \<open>\<open>Error(`Command failed with code ${code}`)\<close>\<close>

text \<open>
  Everything the program does to the outside is an event of the trace. The colours and
  glyphs of the log helpers are left to the constructors \<open>LogStep\<close>, \<open>LogSuccess\<close>,
  \<open>LogError\<close> and \<open>Warn\<close>; the message texts are the source's.
\<close>

datatype event =
    CreateInterface              \<comment> \<open>\<open>readline.createInterface\<close>, line 22\<close>
  | RlClose                      \<comment> \<open>\<open>rl.close()\<close>\<close>
  | Question string              \<comment> \<open>\<open>rl.question\<close>\<close>
  | EndOfInput                   \<comment> \<open>stdin ends and readline closes the interface itself\<close>
  | ConsoleLog string
  | LogStep string string
  | LogSuccess string
  | LogError string
  | Warn string                  \<comment> \<open>the yellow \<open>console.log\<close> of steps 4 and 5\<close>
  | SpinnerStart string
  | SpinnerSucceed
  | SpinnerFail string
  | ExecSync string string       \<comment> \<open>command, working directory\<close>
  | Exec string string           \<comment> \<open>command, working directory\<close>
  | ReadFile string
  | WriteFile string string      \<comment> \<open>path, content\<close>
  | ConsoleError error
  | ProcessExit int              \<comment> \<open>the process ends with this status\<close>

type_synonym files = "string \<rightharpoonup> string"

text \<open>
  The external collaborators. A subprocess is opaque: it maps the files to an exit status
  and new files. \<open>exec\<close> hands the \<open>close\<close> handler an exit code, \<open>null\<close> (here \<open>None\<close>) when
  a signal ended the process. A read fails where the file system has no readable file; whether
  a write goes through is the file system's answer.
\<close>

record env =
  cwd :: string
  execSync :: "string \<Rightarrow> string \<Rightarrow> files \<Rightarrow> bool \<times> files"
  exec :: "string \<Rightarrow> string \<Rightarrow> files \<Rightarrow> int option \<times> files"
  can_write :: "files \<Rightarrow> string \<Rightarrow> bool"

text \<open>
  Standard input reaches readline in chunks, each a list of whole lines: a line typed at the
  terminal is a chunk of its own, lines pasted together or piped in are one chunk. readline
  hands the first line of a chunk to the callback of the pending \<open>rl.question\<close> and
  forgets the callback; the promise that the callback resolves resumes \<open>createProject\<close>
  only after the whole chunk has been handled, so the other lines of the chunk meet no
  question, are emitted as \<open>line\<close> events that nobody listens to, and are lost. While the
  program is at the prompt a question is pending whenever a chunk arrives: the first
  \<open>rl.question\<close> is called while the module loads, and the next one as soon as the
  promise resumes. So the answers the prompt gets are the first lines of the chunks.
\<close>

type_synonym chunk = "string list"

definition delivered :: "chunk list \<Rightarrow> string list" where
  "delivered chunks = concat (map (take 1) chunks)"

record state =
  input :: "string list"   \<comment> \<open>the lines that will still reach a pending question\<close>
  input_ends :: bool       \<comment> \<open>stdin ends after them (a pipe, a file); an open terminal does not\<close>
  files :: files
  trace :: "event list"    \<comment> \<open>oldest event first\<close>

definition stdin_state :: "chunk list \<Rightarrow> bool \<Rightarrow> files \<Rightarrow> state" where
  \<comment> \<open>The state a run starts in, from what standard input will deliver.\<close>
  "stdin_state chunks ends fs =
     \<lparr>input = delivered chunks, input_ends = ends, files = fs, trace = []\<rparr>"

definition emit :: "event \<Rightarrow> state \<Rightarrow> state" where
  "emit e st = st\<lparr>trace := trace st @ [e]\<rparr>"

definition readFile :: "string \<Rightarrow> state \<Rightarrow> string option \<times> state" where
  \<comment> \<open>\<open>None\<close>: the promise is rejected.\<close>
  "readFile p st = (files st p, emit (ReadFile p) st)"

definition writeFile :: "env \<Rightarrow> string \<Rightarrow> string \<Rightarrow> state \<Rightarrow> bool \<times> state" where
  \<comment> \<open>\<open>False\<close>: the promise is rejected and the file is left as it was.\<close>
  "writeFile e p content st =
     (let st1 = emit (WriteFile p content) st
      in if can_write e (files st1) p then (True, st1\<lparr>files := (files st1)(p \<mapsto> content)\<rparr>)
         else (False, st1))"

section \<open>The program\<close>

definition askQuestion :: "string \<Rightarrow> state \<Rightarrow> string option \<times> state" where
  \<comment> \<open>\<open>rl.question\<close> resolves with the trimmed answer. \<open>None\<close>: no line reaches the
      question any more and the promise is never resolved; when stdin ends, readline
      closes the interface and the question stays unanswered.\<close>
  "askQuestion query st =
     (let st1 = emit (Question query) st
      in case input st1 of
           [] \<Rightarrow> (None, if input_ends st1 then emit EndOfInput st1 else st1)
         | ans # rest \<Rightarrow> (Some (trim ans), st1\<lparr>input := rest\<rparr>))"

function promptProjectName :: "state \<Rightarrow> string option \<times> state" where
  \<comment> \<open>The loop of lines 72 to 76. An empty string is the only falsy string.\<close>
  "promptProjectName st =
     (case askQuestion ''Project name:'' st of
        (None, st1) \<Rightarrow> (None, st1)
      | (Some projectName, st1) \<Rightarrow>
          if projectName = []
          then promptProjectName (emit (LogError ''Project name cannot be empty'') st1)
          else (Some projectName, st1))"
  by pat_completeness auto
termination
  by (relation "measure (\<lambda>st. length (input st))")
     (auto simp: askQuestion_def emit_def Let_def split: list.splits)

declare promptProjectName.simps [simp del]

definition runCommandWithSpinner ::
  "env \<Rightarrow> string \<Rightarrow> string \<Rightarrow> string \<Rightarrow> state \<Rightarrow> (error + unit) \<times> state" where
  "runCommandWithSpinner e command dir loadingMessage st =
     (let st1 = emit (SpinnerStart loadingMessage) st;
          (code, fs) = exec e command dir (files st1);
          st2 = emit (Exec command dir) (st1\<lparr>files := fs\<rparr>)
      in if code = Some 0 then (Inr (), emit SpinnerSucceed st2)
         else (Inl (CommandFailed code), emit (SpinnerFail []) st2))"

definition isGlobal :: "bool \<Rightarrow> bool" where
  \<comment> \<open>\<open>require.main !== module\<close>; the argument is \<open>require.main === module\<close>.\<close>
  "isGlobal is_main = (\<not> is_main)"

definition project_path :: "bool \<Rightarrow> string \<Rightarrow> string \<Rightarrow> string" where
  \<comment> \<open>Lines 79 to 81.\<close>
  "project_path global dir projectName =
     (if global then path_join [dir, projectName]
      else path_join [dir, ''..'', projectName])"

definition create_vite_command :: "string \<Rightarrow> string" where
  \<comment> \<open>The template literal of line 87.\<close>
  "create_vite_command projectName =
     ''npm create vite@latest '' @ projectName @ '' -- --template react''"

definition step1 :: "bool \<Rightarrow> env \<Rightarrow> string \<Rightarrow> string \<Rightarrow> state \<Rightarrow> (error + unit) \<times> state" where
  "step1 global e projectName projectPath st =
     (let st1 = emit (SpinnerStart ''Scaffolding project with Vite'')
                  (emit (LogStep ''1/6'' ''Creating Vite project...'') st);
          command = create_vite_command projectName;
          dir = (if global then cwd e else path_join [cwd e, ''..'']);
          (ok, fs) = execSync e command dir (files st1);
          st2 = emit (ExecSync command dir) (st1\<lparr>files := fs\<rparr>)
      in if ok
         then (Inr (), emit (LogSuccess (''Project created at: '' @ projectPath))
                         (emit SpinnerSucceed st2))
         else (Inl ExecSyncFailed, emit (SpinnerFail ''Failed to create Vite project'') st2))"

definition step2 :: "env \<Rightarrow> string \<Rightarrow> state \<Rightarrow> (error + unit) \<times> state" where
  "step2 e projectPath st =
     (case runCommandWithSpinner e ''npm install'' projectPath
             ''Installing React + Vite dependencies''
             (emit (LogStep ''2/6'' ''Installing base dependencies...'') st) of
        (Inr _, st1) \<Rightarrow> (Inr (), emit (LogSuccess ''Base dependencies installed'') st1)
      | (Inl err, st1) \<Rightarrow> (Inl err, emit (LogError ''Failed to install dependencies'') st1))"

definition step3 :: "env \<Rightarrow> string \<Rightarrow> state \<Rightarrow> (error + unit) \<times> state" where
  "step3 e projectPath st =
     (case runCommandWithSpinner e ''npm install tailwindcss @tailwindcss/vite'' projectPath
             ''Installing Tailwind CSS v4''
             (emit (LogStep ''3/6'' ''Adding Tailwind CSS...'') st) of
        (Inr _, st1) \<Rightarrow> (Inr (), emit (LogSuccess ''Tailwind CSS installed'') st1)
      | (Inl err, st1) \<Rightarrow> (Inl err, emit (LogError ''Failed to install Tailwind'') st1))"

definition step4_failed :: "state \<Rightarrow> state" where
  \<comment> \<open>The \<open>catch\<close> of step 4.\<close>
  "step4_failed st =
     emit (Warn ''Manually add Tailwind to vite.config.js'')
       (emit (SpinnerFail ''Couldn't auto-configure Vite'') st)"

definition step4 :: "env \<Rightarrow> string \<Rightarrow> state \<Rightarrow> state" where
  "step4 e projectPath st =
     (let viteConfigPath = path_join [projectPath, ''vite.config.js''];
          st1 = emit (SpinnerStart ''Updating vite.config.js'')
                  (emit (LogStep ''4/6'' ''Configuring Vite...'') st)
      in case readFile viteConfigPath st1 of
           (None, st2) \<Rightarrow> step4_failed st2
         | (Some config, st2) \<Rightarrow>
             (case writeFile e viteConfigPath (patch_config config) st2 of
                (False, st3) \<Rightarrow> step4_failed st3
              | (True, st3) \<Rightarrow>
                  emit (LogSuccess ''Vite configured for Tailwind'') (emit SpinnerSucceed st3)))"

definition TAILWIND_CSS :: string where
  "TAILWIND_CSS = ''@import \"tailwindcss\";\<newline>''"

definition step5 :: "env \<Rightarrow> string \<Rightarrow> state \<Rightarrow> state" where
  \<comment> \<open>Both writes are started before \<open>Promise.all\<close> waits, so the second one runs also when
      the first one fails.\<close>
  "step5 e projectPath st =
     (let st1 = emit (SpinnerStart ''Configuring CSS files'')
                  (emit (LogStep ''5/6'' ''Setting up CSS...'') st);
          (ok1, st2) = writeFile e (path_join [projectPath, ''src'', ''index.css'']) TAILWIND_CSS st1;
          (ok2, st3) = writeFile e (path_join [projectPath, ''src'', ''App.css'']) TAILWIND_CSS st2
      in if ok1 \<and> ok2
         then emit (LogSuccess ''CSS files configured'') (emit SpinnerSucceed st3)
         else emit (Warn ''Manually add @import \"tailwindcss\" to CSS files'')
                (emit (SpinnerFail ''Couldn't configure CSS files'') st3))"

definition finish :: "string \<Rightarrow> state \<Rightarrow> state" where
  "finish projectName st =
     emit (ConsoleLog ''npm run dev'')
       (emit (ConsoleLog (''cd '' @ projectName))
          (emit (ConsoleLog ''Next steps:'')
             (emit (ConsoleLog ''Setup complete!'')
                (emit (LogStep ''6/6'' ''Finalizing setup...'') st))))"

definition run_steps :: "bool \<Rightarrow> env \<Rightarrow> string \<Rightarrow> state \<Rightarrow> (error + string) \<times> state" where
  \<comment> \<open>\<open>createProject\<close> from line 78 on, once the name is there.\<close>
  "run_steps global e projectName st =
     (let projectPath = project_path global (cwd e) projectName
      in case step1 global e projectName projectPath st of
           (Inl err, st1) \<Rightarrow> (Inl err, st1)
         | (Inr _, st1) \<Rightarrow>
             (case step2 e projectPath st1 of
                (Inl err, st2) \<Rightarrow> (Inl err, st2)
              | (Inr _, st2) \<Rightarrow>
                  (case step3 e projectPath st2 of
                     (Inl err, st3) \<Rightarrow> (Inl err, st3)
                   | (Inr _, st3) \<Rightarrow>
                       (Inr projectPath,
                        finish projectName (step5 e projectPath (step4 e projectPath st3))))))"

definition createProject :: "bool \<Rightarrow> env \<Rightarrow> state \<Rightarrow> (error + string) option \<times> state" where
  \<comment> \<open>\<open>None\<close>: the promise stays pending, at the prompt. \<open>Inl\<close>: it is rejected.\<close>
  "createProject global e st =
     (case promptProjectName (emit (ConsoleLog ''Vite + React + Tailwind CSS v4 Setup'') st) of
        (None, st1) \<Rightarrow> (None, st1)
      | (Some projectName, st1) \<Rightarrow>
          (case run_steps global e projectName st1 of (r, st2) \<Rightarrow> (Some r, st2)))"

definition load_module :: "bool \<Rightarrow> env \<Rightarrow> state \<Rightarrow> state" where
  \<comment> \<open>The module body. \<open>is_main\<close> is \<open>require.main === module\<close>: the file is the script that
      Node was started with. Otherwise it only exports \<open>createProject\<close>. With the promise
      of \<open>createProject\<close> pending for ever, neither branch of the \<open>try\<close> is reached: the
      script waits at an open terminal, and once stdin has ended Node has nothing left to
      wait for and ends with status 0.\<close>
  "load_module is_main e st =
     (let st1 = emit CreateInterface st
      in if is_main then
           (case createProject (isGlobal is_main) e st1 of
              (None, st2) \<Rightarrow> if input_ends st2 then emit (ProcessExit 0) st2 else st2
            | (Some (Inr _), st2) \<Rightarrow> emit (ProcessExit 0) (emit RlClose st2)
            | (Some (Inl err), st2) \<Rightarrow>
                emit (ProcessExit 1)
                  (emit RlClose (emit (ConsoleError err) (emit (SpinnerFail ''Setup failed'') st2))))
         else st1)"


definition blank :: "string \<Rightarrow> bool" where
  \<comment> \<open>An answer that is empty once trimmed.\<close>
  "blank a = (trim a = [])"

definition reprompts :: "nat \<Rightarrow> event list" where
  \<comment> \<open>The events of \<open>n\<close> rounds of the prompt loop that end with the error message.\<close>
  "reprompts n =
     concat (replicate n [Question ''Project name:'', LogError ''Project name cannot be empty''])"

definition is_file_event :: "event \<Rightarrow> bool" where
  "is_file_event ev = (case ev of ReadFile _ \<Rightarrow> True | WriteFile _ _ \<Rightarrow> True | _ \<Rightarrow> False)"

definition is_subprocess :: "event \<Rightarrow> bool" where
  "is_subprocess ev = (case ev of ExecSync _ _ \<Rightarrow> True | Exec _ _ \<Rightarrow> True | _ \<Rightarrow> False)"

section \<open>Concrete inputs\<close>

definition vite_template :: string where
  \<comment> \<open>The \<open>vite.config.js\<close> of the react template.\<close>
  "vite_template =
     ''import { defineConfig } from 'vite'' @ [CHR 0x27] @ ''\<newline>'' @ REACT_IMPORT @
     ''\<newline>\<newline>// https://vite.dev/config/\<newline>export default defineConfig({\<newline>  plugins: [react()],\<newline>})\<newline>''"

definition config_two_arrays :: string where
  \<comment> \<open>A config with a \<open>plugins:\<close> array of PostCSS, written with a TAB, before the
      one of Vite.\<close>
  "config_two_arrays =
     REACT_IMPORT @ ''\<newline>export default {\<newline>  css: { postcss: { plugins:'' @ [CHR 0x09] @
     ''[] } },\<newline>  plugins: [react()],\<newline>}\<newline>''"



definition demo_env :: env where
  "demo_env = \<lparr>cwd = ''/home/u/work'',
               execSync = (\<lambda>command dir fs. (True, fs)),
               exec = (\<lambda>command dir fs. (Some 0, fs)),
               can_write = (\<lambda>fs p. True)\<rparr>"

definition demo_state :: state where
  "demo_state = \<lparr>input = [''  '', '' demo ''], input_ends = False,
                 files = [''/home/u/demo/vite.config.js'' \<mapsto> vite_template,
                          ''/home/u/demo/src/index.css'' \<mapsto> ''body { margin: 0 }''],
                 trace = []\<rparr>"

definition failing_install_env :: env where
  "failing_install_env =
     demo_env\<lparr>exec := (\<lambda>command dir fs. (if command = ''npm install'' then Some 1 else Some 0, fs))\<rparr>"

definition empty_project_state :: state where
  "empty_project_state =
     \<lparr>input = [''demo''], input_ends = False, files = Map.empty, trace = []\<rparr>"

definition plain_config :: string where
  "plain_config = ''export default {}\<newline>''"

definition plain_state :: state where
  "plain_state =
     \<lparr>input = [], input_ends = False,
      files = [''/home/u/demo/vite.config.js'' \<mapsto> plain_config], trace = []\<rparr>"

definition read_only_env :: env where
  \<comment> \<open>A file system that takes no write.\<close>
  "read_only_env = demo_env\<lparr>can_write := (\<lambda>fs p. False)\<rparr>"

definition typed_input :: "chunk list" where
  \<comment> \<open>A blank line, then a name, each typed and entered on its own.\<close>
  "typed_input = [[''  ''], ['' demo '']]"

definition pasted_input :: "chunk list" where
  \<comment> \<open>The same two lines arriving together.\<close>
  "pasted_input = [[''  '', '' demo '']]"

definition blank_only_state :: state where
  "blank_only_state =
     \<lparr>input = ['''', ''   ''], input_ends = False, files = Map.empty, trace = []\<rparr>"

section \<open>Facts about the string operations\<close>

lemma indexOf_None_iff: "indexOf s p = None \<longleftrightarrow> \<not> sublist p s"
  by (induction s) (auto simp: sublist_Cons_right)

lemma includes_str_iff: "includes_str s p \<longleftrightarrow> sublist p s"
  by (simp add: includes_str_def indexOf_None_iff)

lemma indexOf_SomeD:
  "indexOf s p = Some i \<Longrightarrow> prefix p (drop i s) \<and> i \<le> length s"
  by (induction s arbitrary: i) (auto split: if_splits)

lemma replace_str_absent: "\<not> sublist p s \<Longrightarrow> replace_str s p r = s"
  by (simp add: replace_str_def indexOf_None_iff[symmetric])

lemma replace_str_present:
  assumes "sublist p s"
  obtains A B where "s = A @ p @ B" "replace_str s p r = A @ r @ B" "indexOf s p = Some (length A)"
proof -
  from assms obtain i where i: "indexOf s p = Some i"
    using indexOf_None_iff by (cases "indexOf s p") auto
  from indexOf_SomeD[OF i] obtain B where B: "drop i s = p @ B" and le: "i \<le> length s"
    by (auto simp: prefix_def)
  have s: "s = take i s @ p @ B" using B by (metis append_take_drop_id)
  have "drop (i + length p) s = B"
    using B by (metis add.commute append_eq_conv_conj drop_drop)
  then have "replace_str s p r = take i s @ r @ B" by (simp add: replace_str_def i)
  moreover have "indexOf s p = Some (length (take i s))" using i le by simp
  ultimately show thesis using that s by blast
qed

lemma not_space_bracket: "\<not> is_space CHR ''[''"
  by (simp add: is_space_def)

lemma match_plugins_Some_iff:
  "match_plugins s = Some n \<longleftrightarrow>
     (\<exists>ws rest. s = ''plugins:'' @ ws @ ''['' @ rest \<and> list_all is_space ws \<and> n = 9 + length ws)"
proof
  assume m: "match_plugins s = Some n"
  then have p: "prefix ''plugins:'' s" by (auto simp: match_plugins_def split: if_splits)
  then obtain t where s: "s = ''plugins:'' @ t" by (auto simp: prefix_def)
  define ws where "ws = takeWhile is_space t"
  from m s have "\<exists>rest. dropWhile is_space t = CHR ''['' # rest \<and> n = 9 + length ws"
    by (auto simp: match_plugins_def Let_def ws_def split: list.splits if_splits)
  then obtain rest where r: "dropWhile is_space t = CHR ''['' # rest" and n: "n = 9 + length ws" by blast
  have "t = ws @ dropWhile is_space t"
    by (simp add: ws_def)
  with r have "t = ws @ ''['' @ rest" by simp
  moreover have "list_all is_space ws" by (simp add: ws_def list_all_iff) (meson set_takeWhileD)
  ultimately show "\<exists>ws rest. s = ''plugins:'' @ ws @ ''['' @ rest \<and> list_all is_space ws \<and> n = 9 + length ws"
    using s n by blast
next
  assume "\<exists>ws rest. s = ''plugins:'' @ ws @ ''['' @ rest \<and> list_all is_space ws \<and> n = 9 + length ws"
  then obtain ws rest where s: "s = ''plugins:'' @ ws @ ''['' @ rest" and a: "list_all is_space ws"
    and n: "n = 9 + length ws" by blast
  have tw: "takeWhile is_space (ws @ CHR ''['' # rest) = ws"
    using a not_space_bracket by (simp add: list_all_iff)
  have dw: "dropWhile is_space (ws @ CHR ''['' # rest) = CHR ''['' # rest"
    using a not_space_bracket by (simp add: list_all_iff)
  show "match_plugins s = Some n"
    by (simp add: match_plugins_def s tw dw n)
qed

lemma search_plugins_SomeD:
  "search_plugins s = Some (i, n) \<Longrightarrow>
     match_plugins (drop i s) = Some n \<and> (\<forall>j<i. match_plugins (drop j s) = None)"
proof (induction s arbitrary: i)
  case Nil
  then show ?case by simp
next
  case (Cons c cs)
  show ?case
  proof (cases "match_plugins (c # cs)")
    case None
    with Cons.prems obtain i' where i': "search_plugins cs = Some (i', n)" "i = Suc i'"
      by (auto split: option.splits)
    from Cons.IH[OF i'(1)] have ih: "match_plugins (drop i' cs) = Some n"
      "\<forall>j<i'. match_plugins (drop j cs) = None" by auto
    have "match_plugins (drop j (c # cs)) = None" if "j < i" for j
      using that None ih(2) i'(2) by (cases j) auto
    then show ?thesis using ih(1) i'(2) by simp
  next
    case (Some a)
    with Cons.prems show ?thesis by simp
  qed
qed

lemma sublist_split_at:
  assumes "d \<notin> set p"
  shows "sublist p (x @ d # y) \<longleftrightarrow> sublist p x \<or> sublist p y"
proof
  assume "sublist p (x @ d # y)"
  then consider "sublist p x" | "sublist p (d # y)"
    | p1 p2 where "p = p1 @ p2" "suffix p1 x" "prefix p2 (d # y)"
    by (auto simp: sublist_append)
  then show "sublist p x \<or> sublist p y"
  proof cases
    case 1
    then show ?thesis by simp
  next
    case 2
    then show ?thesis using assms by (cases p) (auto simp: sublist_Cons_right)
  next
    case 3
    then show ?thesis using assms by (cases p2) auto
  qed
next
  assume "sublist p x \<or> sublist p y"
  then show "sublist p (x @ d # y)"
    by (auto simp: sublist_append sublist_Cons_right)
qed

lemma sublist_ends_before:
  assumes "p \<noteq> []" "last p \<notin> set y"
  shows "sublist p (x @ y) \<longleftrightarrow> sublist p x"
proof
  assume "sublist p (x @ y)"
  then consider "sublist p x" | "sublist p y"
    | p1 p2 where "p = p1 @ p2" "suffix p1 x" "prefix p2 y"
    by (auto simp: sublist_append)
  then show "sublist p x"
  proof cases
    case 1
    then show ?thesis .
  next
    case 2
    then have "set p \<subseteq> set y" by (rule set_mono_sublist)
    then show ?thesis using assms by (meson last_in_set subsetD)
  next
    case 3
    show ?thesis
    proof (cases "p2 = []")
      case True
      then show ?thesis using 3 by auto
    next
      case False
      then have "last p = last p2" using 3(1) by simp
      moreover have "set p2 \<subseteq> set y" using 3(3) by (simp add: set_mono_prefix)
      ultimately show ?thesis using assms False by (metis last_in_set subsetD)
    qed
  qed
next
  assume "sublist p x"
  then show "sublist p (x @ y)" by (auto simp: sublist_append)
qed

lemma replace_plugins_absent: "search_plugins s = None \<Longrightarrow> replace_plugins s r = s"
  by (simp add: replace_plugins_def)

lemma replace_plugins_present:
  assumes "search_plugins s = Some (i, n)"
  obtains pre ws post where "s = pre @ ''plugins:'' @ ws @ ''['' @ post" "list_all is_space ws"
    "length pre = i" "n = 9 + length ws" "replace_plugins s r = pre @ r @ post"
proof -
  from search_plugins_SomeD[OF assms] have m: "match_plugins (drop i s) = Some n" by simp
  then obtain ws post where d: "drop i s = ''plugins:'' @ ws @ ''['' @ post"
    and ws: "list_all is_space ws" and n: "n = 9 + length ws"
    unfolding match_plugins_Some_iff by blast
  have le: "i \<le> length s" using d by (metis append_is_Nil_conv drop_all list.discI nat_le_linear)
  have s: "s = take i s @ ''plugins:'' @ ws @ ''['' @ post"
    using d by (metis append_take_drop_id)
  have "n = length (''plugins:'' @ ws @ ''['')" by (simp add: n)
  moreover have "drop i s = (''plugins:'' @ ws @ ''['') @ post" by (simp add: d)
  ultimately have "drop n (drop i s) = post" by (metis append_eq_conv_conj)
  then have "drop (i + n) s = post" by (simp add: add.commute)
  then have "replace_plugins s r = take i s @ r @ post"
    by (simp add: replace_plugins_def assms)
  then show thesis using that[of "take i s" ws post] s ws n le by simp
qed

lemma search_plugins_Some_iff:
  "search_plugins s = Some (i, n) \<longleftrightarrow>
     match_plugins (drop i s) = Some n \<and> (\<forall>j<i. match_plugins (drop j s) = None)"
proof
  assume "search_plugins s = Some (i, n)"
  then show "match_plugins (drop i s) = Some n \<and> (\<forall>j<i. match_plugins (drop j s) = None)"
    by (rule search_plugins_SomeD)
next
  assume a: "match_plugins (drop i s) = Some n \<and> (\<forall>j<i. match_plugins (drop j s) = None)"
  then show "search_plugins s = Some (i, n)"
  proof (induction s arbitrary: i)
    case Nil
    then show ?case by (simp add: match_plugins_def)
  next
    case (Cons c cs)
    show ?case
    proof (cases i)
      case 0
      then show ?thesis using Cons.prems by simp
    next
      case (Suc k)
      have "match_plugins (drop 0 (c # cs)) = None" using Cons.prems Suc by blast
      then have m0: "match_plugins (c # cs) = None" by simp
      have "match_plugins (drop k cs) = Some n" using Cons.prems Suc by simp
      moreover have "match_plugins (drop j cs) = None" if "j < k" for j
      proof -
        have "match_plugins (drop (Suc j) (c # cs)) = None" using Cons.prems Suc that by blast
        then show ?thesis by simp
      qed
      ultimately have "search_plugins cs = Some (k, n)" using Cons.IH by blast
      then show ?thesis using m0 Suc by simp
    qed
  qed
qed

lemma quote_not_plugins_text:
  assumes "list_all is_space ws"
  shows "CHR 0x27 \<notin> set (''plugins:'' @ ws @ ''['')"
proof
  assume "CHR 0x27 \<in> set (''plugins:'' @ ws @ ''['')"
  then have "CHR 0x27 \<in> set ws" by simp
  then have "is_space (CHR 0x27)" using assms by (simp add: list_all_iff)
  then show False by (simp add: is_space_def)
qed

lemma match_plugins_quote_cut:
  assumes "u \<noteq> []" "last u = CHR 0x27"
  shows "match_plugins (u @ rest) = match_plugins u"
proof -
  have "match_plugins (u @ rest) = Some n \<longleftrightarrow> match_plugins u = Some n" for n
  proof
    assume "match_plugins (u @ rest) = Some n"
    then obtain ws r where e0: "u @ rest = ''plugins:'' @ ws @ ''['' @ r"
      and ws: "list_all is_space ws" and n: "n = 9 + length ws"
      using match_plugins_Some_iff[of "u @ rest" n] by blast
    define m where "m = ''plugins:'' @ ws @ ''[''"
    have e: "u @ rest = m @ r" using e0 by (simp add: m_def)
    have q: "CHR 0x27 \<notin> set m" unfolding m_def using ws by (rule quote_not_plugins_text)
    have np: "\<not> prefix u m"
    proof
      assume "prefix u m"
      then have "set u \<subseteq> set m" by (rule set_mono_prefix)
      moreover have "last u \<in> set u" using assms(1) by (rule last_in_set)
      ultimately show False using q assms(2) by auto
    qed
    have p1: "prefix u (u @ rest)" by simp
    have p2: "prefix m (u @ rest)" unfolding e by simp
    have "prefix m u"
      using prefix_same_cases[OF p1 p2] np by blast
    then obtain r' where "u = m @ r'" by (rule prefixE)
    then have "u = ''plugins:'' @ ws @ ''['' @ r'" by (simp add: m_def)
    then show "match_plugins u = Some n"
      using match_plugins_Some_iff[of u n] ws n by blast
  next
    assume "match_plugins u = Some n"
    then obtain ws r where "u = ''plugins:'' @ ws @ ''['' @ r"
      and ws: "list_all is_space ws" and n: "n = 9 + length ws"
      using match_plugins_Some_iff[of u n] by blast
    then have "u @ rest = ''plugins:'' @ ws @ ''['' @ (r @ rest)" by simp
    then show "match_plugins (u @ rest) = Some n"
      using match_plugins_Some_iff[of "u @ rest" n] ws n by blast
  qed
  then show ?thesis by (cases "match_plugins u") (simp, metis option.exhaust, simp)
qed

lemma match_plugins_needs_colon: "CHR '':'' \<notin> set s \<Longrightarrow> match_plugins s = None"
  by (auto simp: match_plugins_def dest!: set_mono_prefix)

lemma match_plugins_drop_insert:
  assumes u: "u \<noteq> []" "last u = CHR 0x27"
    and v: "v \<noteq> []" "last v = CHR 0x27" "CHR '':'' \<notin> set v"
  shows "match_plugins (drop k (u @ v @ B)) =
           (if k < length u then match_plugins (drop k (u @ B))
            else if k < length u + length v then None
            else match_plugins (drop (k - length v) (u @ B)))"
proof -
  consider "k < length u" | "length u \<le> k" "k < length u + length v" | "length u + length v \<le> k"
    by linarith
  then show ?thesis
  proof cases
    case 1
    then have ne: "drop k u \<noteq> []" and l: "last (drop k u) = CHR 0x27" using u by simp_all
    have "match_plugins (drop k u @ (v @ B)) = match_plugins (drop k u)"
      using ne l by (rule match_plugins_quote_cut)
    moreover have "match_plugins (drop k u @ B) = match_plugins (drop k u)"
      using ne l by (rule match_plugins_quote_cut)
    ultimately show ?thesis using 1 by simp
  next
    case 2
    define w where "w = drop (k - length u) v"
    have ne: "w \<noteq> []" and l: "last w = CHR 0x27" using 2 v by (simp_all add: w_def)
    have "set w \<subseteq> set v" unfolding w_def by (rule set_drop_subset)
    then have "match_plugins w = None" using v(3) by (auto intro: match_plugins_needs_colon)
    moreover have "match_plugins (w @ B) = match_plugins w"
      using ne l by (rule match_plugins_quote_cut)
    moreover have "drop k (u @ v @ B) = w @ B" using 2 by (simp add: w_def)
    ultimately show ?thesis using 2 by simp
  next
    case 3
    then have "drop k (u @ v @ B) = drop (k - length u - length v) B" by simp
    moreover have "drop (k - length v) (u @ B) = drop (k - length v - length u) B"
      using 3 by simp
    moreover have "k - length u - length v = k - length v - length u" by simp
    ultimately show ?thesis using 3 by simp
  qed
qed

lemma search_plugins_insert:
  assumes u: "u \<noteq> []" "last u = CHR 0x27"
    and v: "v \<noteq> []" "last v = CHR 0x27" "CHR '':'' \<notin> set v"
    and s: "search_plugins (u @ B) = Some (j, n)"
  shows "search_plugins (u @ v @ B) = Some (if j < length u then j else j + length v, n)"
proof -
  note F = match_plugins_drop_insert[OF u v, of _ B]
  from s have m: "match_plugins (drop j (u @ B)) = Some n"
    and f: "\<And>k. k < j \<Longrightarrow> match_plugins (drop k (u @ B)) = None"
    using search_plugins_SomeD by blast+
  show ?thesis
  proof (cases "j < length u")
    case True
    have "match_plugins (drop j (u @ v @ B)) = Some n" using F[of j] True m by simp
    moreover have "match_plugins (drop k (u @ v @ B)) = None" if "k < j" for k
      using F[of k] True that f[of k] by simp
    ultimately show ?thesis using True search_plugins_Some_iff[of "u @ v @ B" j n] by simp
  next
    case False
    have "match_plugins (drop (j + length v) (u @ v @ B)) = Some n"
      using F[of "j + length v"] False m by simp
    moreover have "match_plugins (drop k (u @ v @ B)) = None" if "k < j + length v" for k
    proof -
      consider "k < length u" | "length u \<le> k" "k < length u + length v" | "length u + length v \<le> k"
        by linarith
      then show ?thesis
      proof cases
        case 1
        then show ?thesis using F[of k] f[of k] False by simp
      next
        case 2
        then show ?thesis using F[of k] by simp
      next
        case 3
        then have "k - length v < j" using that by linarith
        then show ?thesis using F[of k] 3 f[of "k - length v"] by simp
      qed
    qed
    ultimately show ?thesis
      using False search_plugins_Some_iff[of "u @ v @ B" "j + length v" n] by simp
  qed
qed

lemma search_plugins_not_inside:
  assumes u: "u = A @ R" "R \<noteq> []" "last R = CHR 0x27" "CHR '':'' \<notin> set R"
    and s: "search_plugins (u @ B) = Some (j, n)" and j: "length A \<le> j"
  shows "length u \<le> j"
proof (rule ccontr)
  assume "\<not> length u \<le> j"
  then have lt: "j < length u" by simp
  define w where "w = drop (j - length A) R"
  have dw: "drop j u = w" using j by (simp add: u(1) w_def)
  have ne: "w \<noteq> []" using lt j u(1) by (simp add: w_def)
  have l: "last w = CHR 0x27" using ne u(3) by (simp add: w_def)
  have "set w \<subseteq> set R" unfolding w_def by (rule set_drop_subset)
  then have "match_plugins w = None" using u(4) by (auto intro: match_plugins_needs_colon)
  moreover have "match_plugins (w @ B) = match_plugins w" using ne l by (rule match_plugins_quote_cut)
  moreover have "drop j (u @ B) = w @ B" using lt dw by simp
  moreover have "match_plugins (drop j (u @ B)) = Some n" using s search_plugins_SomeD by blast
  ultimately show False by simp
qed

section \<open>Facts about the two insertions\<close>

lemma replace_plugins_keeps:
  assumes p: "sublist p s"
    and nc: "CHR '':'' \<notin> set p" and nb: "CHR ''['' \<notin> set p"
    and ne: "p \<noteq> []" and lp: "last p \<notin> set ''plugins''" and sp: "\<not> list_all is_space p"
  shows "sublist p (replace_plugins s r)"
proof (cases "search_plugins s")
  case None
  then show ?thesis using p by (simp add: replace_plugins_absent)
next
  case (Some a)
  obtain i n where a: "a = (i, n)" by (cases a)
  from Some a obtain pre ws post where s: "s = pre @ ''plugins:'' @ ws @ ''['' @ post"
    and ws: "list_all is_space ws" and r: "replace_plugins s r = pre @ r @ post"
    using replace_plugins_present[of s i n r] by metis
  define w where "w = ''plugins''"
  have "sublist p ((pre @ w) @ CHR '':'' # (ws @ CHR ''['' # post))"
    using p s by (simp add: w_def)
  then have "sublist p (pre @ w) \<or> sublist p (ws @ CHR ''['' # post)"
    using sublist_split_at[OF nc] by blast
  then show ?thesis
  proof
    assume "sublist p (pre @ w)"
    then have "sublist p pre"
      using sublist_ends_before[OF ne, of w pre] lp by (simp add: w_def)
    then show ?thesis by (simp add: r sublist_append)
  next
    assume "sublist p (ws @ CHR ''['' # post)"
    then have "sublist p ws \<or> sublist p post"
      using sublist_split_at[OF nb] by blast
    moreover have "\<not> sublist p ws"
    proof
      assume "sublist p ws"
      then have "set p \<subseteq> set ws" by (rule set_mono_sublist)
      then have "list_all is_space p" using ws by (auto simp: list_all_iff)
      with sp show False by simp
    qed
    ultimately show ?thesis by (simp add: r sublist_append)
  qed
qed

lemma tailwind_import_survives:
  assumes "sublist TAILWIND_IMPORT s"
  shows "sublist TAILWIND_IMPORT (replace_plugins s r)"
  using assms
  by (rule replace_plugins_keeps) (simp_all add: TAILWIND_IMPORT_def is_space_def)

lemma react_import_not_created:
  assumes "sublist REACT_IMPORT (replace_plugins s PLUGINS_ENTRY)"
  shows "sublist REACT_IMPORT s"
proof (cases "search_plugins s")
  case None
  then show ?thesis using assms by (simp add: replace_plugins_absent)
next
  case (Some a)
  obtain i n where a: "a = (i, n)" by (cases a)
  from Some a obtain pre ws post where s: "s = pre @ ''plugins:'' @ ws @ ''['' @ post"
    and r: "replace_plugins s PLUGINS_ENTRY = pre @ PLUGINS_ENTRY @ post"
    using replace_plugins_present[of s i n PLUGINS_ENTRY] by metis
  have "sublist REACT_IMPORT ((pre @ ''plugins: [\<newline>    tailwindcss()'') @ CHR '','' # post)"
    using assms r by (simp add: PLUGINS_ENTRY_def)
  then have "sublist REACT_IMPORT (pre @ ''plugins: [\<newline>    tailwindcss()'') \<or> sublist REACT_IMPORT post"
    by (subst (asm) sublist_split_at) (simp_all add: REACT_IMPORT_def)
  then show ?thesis
  proof
    assume "sublist REACT_IMPORT (pre @ ''plugins: [\<newline>    tailwindcss()'')"
    then have "sublist REACT_IMPORT pre"
      by (subst (asm) sublist_ends_before) (simp_all add: REACT_IMPORT_def)
    then show ?thesis by (simp add: s sublist_append)
  next
    assume "sublist REACT_IMPORT post"
    then have "sublist REACT_IMPORT ((pre @ ''plugins:'' @ ws @ ''['') @ post)"
      by (simp only: sublist_append) simp
    then show ?thesis by (simp add: s)
  qed
qed

lemma tailwind_call_inserted:
  assumes "search_plugins s = Some a"
  shows "sublist TAILWIND_CALL (replace_plugins s PLUGINS_ENTRY)"
proof -
  obtain i n where a: "a = (i, n)" by (cases a)
  from assms a obtain pre post where r: "replace_plugins s PLUGINS_ENTRY = pre @ PLUGINS_ENTRY @ post"
    using replace_plugins_present[of s i n PLUGINS_ENTRY] by metis
  have "PLUGINS_ENTRY = ''plugins: [\<newline>    '' @ TAILWIND_CALL @ '',''"
    by (simp add: PLUGINS_ENTRY_def TAILWIND_CALL_def)
  then have "replace_plugins s PLUGINS_ENTRY = (pre @ ''plugins: [\<newline>    '') @ TAILWIND_CALL @ ('','' @ post)"
    using r by simp
  then show ?thesis by (metis sublist_appendI)
qed

lemma tailwind_import_inserted:
  assumes "sublist REACT_IMPORT s"
  shows "sublist TAILWIND_IMPORT (replace_str s REACT_IMPORT BOTH_IMPORTS)"
proof -
  from assms obtain A B where
    "replace_str s REACT_IMPORT BOTH_IMPORTS = A @ BOTH_IMPORTS @ B"
    by (rule replace_str_present)
  then have "replace_str s REACT_IMPORT BOTH_IMPORTS
       = (A @ REACT_IMPORT @ ''\<newline>'') @ TAILWIND_IMPORT @ B" by (simp add: BOTH_IMPORTS_def)
  then show ?thesis by (metis sublist_appendI)
qed

lemma patch_import_idem_after:
  "patch_import (patch_plugins (patch_import c)) = patch_plugins (patch_import c)"
proof (cases "sublist TAILWIND_IMPORT (patch_import c)")
  case True
  then have "sublist TAILWIND_IMPORT (patch_plugins (patch_import c))"
    by (simp add: patch_plugins_def tailwind_import_survives)
  then show ?thesis by (simp add: patch_import_def[of "patch_plugins (patch_import c)"] includes_str_iff)
next
  case False
  then have nT: "\<not> sublist TAILWIND_IMPORT c"
    by (auto simp: patch_import_def includes_str_iff split: if_splits)
  have nR: "\<not> sublist REACT_IMPORT c"
  proof
    assume "sublist REACT_IMPORT c"
    then have "sublist TAILWIND_IMPORT (patch_import c)"
      using nT by (simp add: patch_import_def includes_str_iff tailwind_import_inserted)
    with False show False by simp
  qed
  then have c1: "patch_import c = c"
    by (simp add: patch_import_def replace_str_absent)
  have "\<not> sublist REACT_IMPORT (patch_plugins c)"
    using nR react_import_not_created by (auto simp: patch_plugins_def)
  then show ?thesis
    by (simp add: c1 patch_import_def[of "patch_plugins c"] replace_str_absent)
qed

lemma patch_plugins_idem: "patch_plugins (patch_plugins s) = patch_plugins s"
proof (cases "sublist TAILWIND_CALL (patch_plugins s)")
  case True
  then show ?thesis by (simp add: patch_plugins_def[of "patch_plugins s"] includes_str_iff)
next
  case False
  then have n: "\<not> sublist TAILWIND_CALL s" and r: "patch_plugins s = replace_plugins s PLUGINS_ENTRY"
    by (auto simp: patch_plugins_def includes_str_iff split: if_splits)
  have "search_plugins s = None"
    using False r tailwind_call_inserted by (cases "search_plugins s") auto
  then have "patch_plugins s = s" by (simp add: r replace_plugins_absent)
  then show ?thesis by simp
qed

lemma length_REACT_IMPORT: "length REACT_IMPORT = 40"
  by (simp add: REACT_IMPORT_def)

lemma length_INSERTED_IMPORT: "length INSERTED_IMPORT = 44"
  by (simp add: INSERTED_IMPORT_def TAILWIND_IMPORT_def)

lemma BOTH_IMPORTS_split: "BOTH_IMPORTS = REACT_IMPORT @ INSERTED_IMPORT"
  by (simp add: BOTH_IMPORTS_def INSERTED_IMPORT_def)

lemma PLUGINS_ENTRY_split: "PLUGINS_ENTRY = ''plugins: ['' @ INSERTED_ENTRY"
  by (simp add: PLUGINS_ENTRY_def INSERTED_ENTRY_def)

lemma patch_import_inserts:
  assumes "indexOf c REACT_IMPORT = Some i" "\<not> includes_str c TAILWIND_IMPORT"
  obtains A B where "c = A @ REACT_IMPORT @ B" "length A = i"
    "patch_import c = A @ REACT_IMPORT @ INSERTED_IMPORT @ B"
proof -
  from indexOf_SomeD[OF assms(1)] obtain B where B: "drop i c = REACT_IMPORT @ B" and le: "i \<le> length c"
    by (auto simp: prefix_def)
  have c: "c = take i c @ REACT_IMPORT @ B" using B by (metis append_take_drop_id)
  have "drop (length REACT_IMPORT) (drop i c) = B" unfolding B by simp
  then have "drop (i + length REACT_IMPORT) c = B" by (simp add: add.commute)
  then have "patch_import c = take i c @ REACT_IMPORT @ INSERTED_IMPORT @ B"
    using assms by (simp add: patch_import_def replace_str_def BOTH_IMPORTS_split)
  then show thesis using that[of "take i c" B] c le by simp
qed

lemma tailwind_call_not_created:
  assumes "sublist TAILWIND_CALL (u @ INSERTED_IMPORT @ B)"
  shows "sublist TAILWIND_CALL (u @ B)"
proof -
  define T0 where "T0 = ''import tailwindcss from '@tailwindcss/vite''"
  have T: "INSERTED_IMPORT = CHR ''\<newline>'' # T0 @ [CHR 0x27]"
    by (simp add: INSERTED_IMPORT_def TAILWIND_IMPORT_def T0_def)
  have n1: "CHR ''\<newline>'' \<notin> set TAILWIND_CALL" and n2: "CHR 0x27 \<notin> set TAILWIND_CALL"
    by (simp_all add: TAILWIND_CALL_def)
  have "sublist TAILWIND_CALL (u @ CHR ''\<newline>'' # (T0 @ CHR 0x27 # B))"
    using assms by (simp add: T)
  then have "sublist TAILWIND_CALL u \<or> sublist TAILWIND_CALL (T0 @ CHR 0x27 # B)"
    using sublist_split_at[OF n1] by blast
  moreover have "sublist TAILWIND_CALL T0 \<or> sublist TAILWIND_CALL B"
    if "sublist TAILWIND_CALL (T0 @ CHR 0x27 # B)"
    using that sublist_split_at[OF n2] by blast
  moreover have "\<not> sublist TAILWIND_CALL T0"
  proof
    assume "sublist TAILWIND_CALL T0"
    then have "set TAILWIND_CALL \<subseteq> set T0" by (rule set_mono_sublist)
    then show False by (simp add: TAILWIND_CALL_def T0_def)
  qed
  ultimately have "sublist TAILWIND_CALL u \<or> sublist TAILWIND_CALL B" by blast
  then show ?thesis by (auto simp: sublist_append)
qed

lemma subseq_insert_text: "subseq s (insert_text s k t)"
proof -
  have "subseq (take k s @ drop k s) (take k s @ t @ drop k s)"
    by (intro list_emb_append_mono subseq_order.order_refl) (simp add: list_emb_append2)
  then show ?thesis by (simp add: insert_text_def)
qed

section \<open>Facts about the run\<close>

lemma delivered_one_per_chunk:
  "list_all (\<lambda>c. length c = 1) chunks \<Longrightarrow> delivered chunks = concat chunks"
  by (induction chunks) (simp_all add: delivered_def)

lemma promptProjectName_unfold:
  "promptProjectName st =
     (case input st of
        [] \<Rightarrow>
          (None,
           st\<lparr>trace := trace st @ Question ''Project name:''
                            # (if input_ends st then [EndOfInput] else [])\<rparr>)
      | ans # rest \<Rightarrow>
          if trim ans = []
          then promptProjectName
                 (emit (LogError ''Project name cannot be empty'')
                    ((emit (Question ''Project name:'') st)\<lparr>input := rest\<rparr>))
          else (Some (trim ans), (emit (Question ''Project name:'') st)\<lparr>input := rest\<rparr>))"
  by (subst promptProjectName.simps)
     (simp add: askQuestion_def emit_def Let_def split: list.splits)

lemma promptProjectName_loop:
  "input st = xs \<Longrightarrow>
   promptProjectName st =
     (if dropWhile blank xs = [] then None else Some (trim (hd (dropWhile blank xs))),
      st\<lparr>input := tl (dropWhile blank xs),
         trace := trace st @ reprompts (length (takeWhile blank xs))
                  @ Question ''Project name:''
                    # (if dropWhile blank xs = [] \<and> input_ends st then [EndOfInput] else [])\<rparr>)"
proof (induction xs arbitrary: st)
  case Nil
  then show ?case
    by (subst promptProjectName_unfold) (cases st, simp add: emit_def reprompts_def)
next
  case (Cons a xs)
  show ?case
  proof (cases "blank a")
    case True
    define st' where "st' = emit (LogError ''Project name cannot be empty'')
                    ((emit (Question ''Project name:'') st)\<lparr>input := xs\<rparr>)"
    have i: "input st' = xs" by (simp add: st'_def emit_def)
    have u: "promptProjectName st = promptProjectName st'"
      using True Cons.prems by (subst promptProjectName_unfold) (simp add: blank_def st'_def)
    show ?thesis
      unfolding u Cons.IH[OF i] using True
      by (cases st) (simp add: st'_def emit_def reprompts_def)
  next
    case False
    then show ?thesis using Cons.prems
      by (subst promptProjectName_unfold) (cases st, simp add: blank_def emit_def reprompts_def)
  qed
qed

lemma promptProjectName_nonempty: "fst (promptProjectName st) \<noteq> Some []"
proof (cases "dropWhile blank (input st)")
  case Nil
  then show ?thesis by (simp add: promptProjectName_loop[OF refl])
next
  case (Cons a rest)
  then have "\<not> blank a" by (metis hd_dropWhile list.discI list.sel(1))
  then show ?thesis using Cons by (simp add: promptProjectName_loop[OF refl] blank_def)
qed

lemma emit_simps [simp]:
  "trace (emit ev st) = trace st @ [ev]"
  "files (emit ev st) = files st"
  "input (emit ev st) = input st"
  "input_ends (emit ev st) = input_ends st"
  by (simp_all add: emit_def)

lemma runCommandWithSpinner_eq:
  "runCommandWithSpinner e command dir msg st =
     (if fst (exec e command dir (files st)) = Some 0
      then (Inr (), st\<lparr>files := snd (exec e command dir (files st)),
                       trace := trace st @ [SpinnerStart msg, Exec command dir, SpinnerSucceed]\<rparr>)
      else (Inl (CommandFailed (fst (exec e command dir (files st)))),
            st\<lparr>files := snd (exec e command dir (files st)),
               trace := trace st @ [SpinnerStart msg, Exec command dir, SpinnerFail []]\<rparr>))"
  by (simp add: runCommandWithSpinner_def emit_def Let_def split_beta)

lemma step1_eq:
  "step1 global e projectName projectPath st =
     (let dir = (if global then cwd e else path_join [cwd e, ''..'']);
          r = execSync e (create_vite_command projectName) dir (files st);
          evs = [LogStep ''1/6'' ''Creating Vite project...'',
                 SpinnerStart ''Scaffolding project with Vite'',
                 ExecSync (create_vite_command projectName) dir]
      in if fst r
         then (Inr (), st\<lparr>files := snd r,
                 trace := trace st @ evs @
                   [SpinnerSucceed, LogSuccess (''Project created at: '' @ projectPath)]\<rparr>)
         else (Inl ExecSyncFailed, st\<lparr>files := snd r,
                 trace := trace st @ evs @ [SpinnerFail ''Failed to create Vite project'']\<rparr>))"
  by (simp add: step1_def emit_def Let_def split_beta)

lemma step2_eq:
  "step2 e projectPath st =
     (let r = exec e ''npm install'' projectPath (files st);
          evs = [LogStep ''2/6'' ''Installing base dependencies...'',
                 SpinnerStart ''Installing React + Vite dependencies'',
                 Exec ''npm install'' projectPath]
      in if fst r = Some 0
         then (Inr (), st\<lparr>files := snd r,
                 trace := trace st @ evs @
                   [SpinnerSucceed, LogSuccess ''Base dependencies installed'']\<rparr>)
         else (Inl (CommandFailed (fst r)), st\<lparr>files := snd r,
                 trace := trace st @ evs @
                   [SpinnerFail [], LogError ''Failed to install dependencies'']\<rparr>))"
  by (simp add: step2_def runCommandWithSpinner_eq emit_def Let_def)

lemma step3_eq:
  "step3 e projectPath st =
     (let r = exec e ''npm install tailwindcss @tailwindcss/vite'' projectPath (files st);
          evs = [LogStep ''3/6'' ''Adding Tailwind CSS...'',
                 SpinnerStart ''Installing Tailwind CSS v4'',
                 Exec ''npm install tailwindcss @tailwindcss/vite'' projectPath]
      in if fst r = Some 0
         then (Inr (), st\<lparr>files := snd r,
                 trace := trace st @ evs @
                   [SpinnerSucceed, LogSuccess ''Tailwind CSS installed'']\<rparr>)
         else (Inl (CommandFailed (fst r)), st\<lparr>files := snd r,
                 trace := trace st @ evs @
                   [SpinnerFail [], LogError ''Failed to install Tailwind'']\<rparr>))"
  by (simp add: step3_def runCommandWithSpinner_eq emit_def Let_def)

lemma step4_eq:
  "step4 e projectPath st =
     (let cfg = path_join [projectPath, ''vite.config.js''];
          evs = [LogStep ''4/6'' ''Configuring Vite...'',
                 SpinnerStart ''Updating vite.config.js'',
                 ReadFile cfg];
          failed = [SpinnerFail ''Couldn't auto-configure Vite'',
                    Warn ''Manually add Tailwind to vite.config.js'']
      in case files st cfg of
           None \<Rightarrow> st\<lparr>trace := trace st @ evs @ failed\<rparr>
         | Some config \<Rightarrow>
             if can_write e (files st) cfg
             then st\<lparr>files := (files st)(cfg \<mapsto> patch_config config),
                     trace := trace st @ evs @
                       [WriteFile cfg (patch_config config), SpinnerSucceed,
                        LogSuccess ''Vite configured for Tailwind'']\<rparr>
             else st\<lparr>trace := trace st @ evs @ WriteFile cfg (patch_config config) # failed\<rparr>)"
  by (simp add: step4_def step4_failed_def readFile_def writeFile_def emit_def Let_def
           split: option.splits)

lemma step5_eq:
  "step5 e projectPath st =
     (let p1 = path_join [projectPath, ''src'', ''index.css''];
          p2 = path_join [projectPath, ''src'', ''App.css''];
          ok1 = can_write e (files st) p1;
          fs1 = (if ok1 then (files st)(p1 \<mapsto> TAILWIND_CSS) else files st);
          ok2 = can_write e fs1 p2;
          fs2 = (if ok2 then fs1(p2 \<mapsto> TAILWIND_CSS) else fs1);
          evs = [LogStep ''5/6'' ''Setting up CSS...'',
                 SpinnerStart ''Configuring CSS files'',
                 WriteFile p1 TAILWIND_CSS, WriteFile p2 TAILWIND_CSS]
      in st\<lparr>files := fs2,
            trace := trace st @ evs @
              (if ok1 \<and> ok2
               then [SpinnerSucceed, LogSuccess ''CSS files configured'']
               else [SpinnerFail ''Couldn't configure CSS files'',
                     Warn ''Manually add @import \"tailwindcss\" to CSS files''])\<rparr>)"
  by (simp add: step5_def writeFile_def emit_def Let_def)

lemma finish_eq:
  "finish projectName st =
     st\<lparr>trace := trace st @
          [LogStep ''6/6'' ''Finalizing setup...'', ConsoleLog ''Setup complete!'',
           ConsoleLog ''Next steps:'', ConsoleLog (''cd '' @ projectName),
           ConsoleLog ''npm run dev'']\<rparr>"
  by (simp add: finish_def emit_def)

lemma createProject_named:
  assumes "dropWhile blank (input st) = ans # rest"
  shows "createProject global e st =
     (Some (fst (run_steps global e (trim ans)
        (st\<lparr>input := rest,
            trace := trace st @ ConsoleLog ''Vite + React + Tailwind CSS v4 Setup''
                     # reprompts (length (takeWhile blank (input st)))
                     @ [Question ''Project name:'']\<rparr>))),
      snd (run_steps global e (trim ans)
        (st\<lparr>input := rest,
            trace := trace st @ ConsoleLog ''Vite + React + Tailwind CSS v4 Setup''
                     # reprompts (length (takeWhile blank (input st)))
                     @ [Question ''Project name:'']\<rparr>)))"
proof -
  define st0 where "st0 = emit (ConsoleLog ''Vite + React + Tailwind CSS v4 Setup'') st"
  have i0: "input st0 = input st" by (simp add: st0_def)
  have p: "promptProjectName st0 =
     (Some (trim ans),
      st0\<lparr>input := rest,
          trace := trace st0 @ reprompts (length (takeWhile blank (input st)))
                  @ [Question ''Project name:'']\<rparr>)"
    using promptProjectName_loop[OF i0] assms by simp
  show ?thesis
    unfolding createProject_def st0_def[symmetric] p
    by (simp add: split_beta) (simp add: st0_def emit_def)
qed

lemma createProject_pending:
  assumes "dropWhile blank (input st) = []"
  shows "createProject global e st =
     (None,
      st\<lparr>input := [],
         trace := trace st @ ConsoleLog ''Vite + React + Tailwind CSS v4 Setup''
                  # reprompts (length (input st)) @ Question ''Project name:''
                    # (if input_ends st then [EndOfInput] else [])\<rparr>)"
proof -
  define st0 where "st0 = emit (ConsoleLog ''Vite + React + Tailwind CSS v4 Setup'') st"
  have i0: "input st0 = input st" by (simp add: st0_def)
  have tw: "takeWhile blank (input st) = input st"
    using assms by (metis append_Nil2 takeWhile_dropWhile_id)
  have e0: "input_ends st0 = input_ends st" by (simp add: st0_def)
  have "promptProjectName st0 =
     (None, st0\<lparr>input := [],
          trace := trace st0 @ reprompts (length (takeWhile blank (input st)))
                   @ Question ''Project name:''
                     # (if input_ends st then [EndOfInput] else [])\<rparr>)"
    unfolding promptProjectName_loop[OF i0] assms e0 by simp
  then have p: "promptProjectName st0 =
     (None, st0\<lparr>input := [],
          trace := trace st0 @ reprompts (length (input st)) @ Question ''Project name:''
                     # (if input_ends st then [EndOfInput] else [])\<rparr>)"
    unfolding tw .
  show ?thesis
    unfolding createProject_def st0_def[symmetric] p
    by simp (simp add: st0_def emit_def)
qed






lemma run_steps_ok:
  assumes "execSync e (create_vite_command name)
             (if global then cwd e else path_join [cwd e, ''..'']) (files st) = (True, fs1)"
    and "exec e ''npm install'' (project_path global (cwd e) name) fs1 = (Some 0, fs2)"
    and "exec e ''npm install tailwindcss @tailwindcss/vite'' (project_path global (cwd e) name) fs2
           = (Some 0, fs3)"
  shows "fst (run_steps global e name st) = Inr (project_path global (cwd e) name)"
  using assms by (simp add: run_steps_def Let_def step1_eq step2_eq step3_eq)

lemma demo_env_simps:
  "cwd demo_env = ''/home/u/work''"
  "execSync demo_env command dir fs = (True, fs)"
  "exec demo_env command dir fs = (Some 0, fs)"
  "can_write demo_env fs p = True"
  by (simp_all add: demo_env_def)

lemma demo_paths:
  "project_path False ''/home/u/work'' ''demo'' = ''/home/u/demo''"
  "project_path True ''/home/u/work'' ''demo'' = ''/home/u/work/demo''"
  "path_join [''/home/u/work'', ''demo''] = ''/home/u/work/demo''"
  "path_join [''/home/u/work'', ''..'', ''demo''] = ''/home/u/demo''"
  by code_simp+

lemma empty_project_input:
  "dropWhile blank (input empty_project_state) = [''demo'']"
  "trim ''demo'' = ''demo''"
  "trace empty_project_state = []"
  by code_simp+

lemma load_module_main:
  "load_module True e st =
     (case createProject False e (emit CreateInterface st) of
        (None, st2) \<Rightarrow> if input_ends st2 then emit (ProcessExit 0) st2 else st2
      | (Some (Inr p), st2) \<Rightarrow> emit (ProcessExit 0) (emit RlClose st2)
      | (Some (Inl err), st2) \<Rightarrow>
          emit (ProcessExit 1)
            (emit RlClose (emit (ConsoleError err) (emit (SpinnerFail ''Setup failed'') st2))))"
  by (simp add: load_module_def isGlobal_def Let_def)

lemma demo_env_result:
  assumes "dropWhile blank (input st) = ans # rest"
  shows "fst (createProject global demo_env st)
           = Some (Inr (project_path global ''/home/u/work'' (trim ans)))"
proof -
  have "fst (run_steps global demo_env (trim ans) s)
          = Inr (project_path global ''/home/u/work'' (trim ans))" for s
    using run_steps_ok[of demo_env "trim ans" global s "files s" "files s" "files s"]
    by (simp add: demo_env_simps)
  then show ?thesis unfolding createProject_named[OF assms] by simp
qed



lemma steps_extend:
  "prefix (trace s) (trace (snd (step1 global e name pp s)))"
  "prefix (trace s) (trace (snd (step2 e pp s)))"
  "prefix (trace s) (trace (snd (step3 e pp s)))"
  "prefix (trace s) (trace (step4 e pp s))"
  "prefix (trace s) (trace (step5 e pp s))"
  "prefix (trace s) (trace (finish name s))"
proof -
  show "prefix (trace s) (trace (snd (step1 global e name pp s)))"
    by (simp add: step1_eq Let_def)
  show "prefix (trace s) (trace (snd (step2 e pp s)))"
    by (simp add: step2_eq Let_def)
  show "prefix (trace s) (trace (snd (step3 e pp s)))"
    by (simp add: step3_eq Let_def)
  show "prefix (trace s) (trace (step4 e pp s))"
    by (simp add: step4_eq Let_def split: option.splits)
  show "prefix (trace s) (trace (step5 e pp s))"
    by (simp add: step5_eq Let_def)
  show "prefix (trace s) (trace (finish name s))"
    by (simp add: finish_eq)
qed


lemma run_steps_installs:
  assumes "fst (execSync e (create_vite_command name)
                  (if global then cwd e else path_join [cwd e, ''..'']) (files st))"
  shows "Exec ''npm install'' (project_path global (cwd e) name)
           \<in> set (trace (snd (run_steps global e name st)))"
proof -
  define pp where "pp = project_path global (cwd e) name"
  obtain r1 st1 where s1: "step1 global e name pp st = (r1, st1)" by (cases "step1 global e name pp st")
  obtain r2 st2 where s2: "step2 e pp st1 = (r2, st2)" by (cases "step2 e pp st1")
  obtain r3 st3 where s3: "step3 e pp st2 = (r3, st3)" by (cases "step3 e pp st2")
  have ok: "r1 = Inr ()" using assms s1 by (simp add: step1_eq Let_def)
  have "Exec ''npm install'' pp \<in> set (trace (snd (step2 e pp st1)))"
    by (simp add: step2_eq Let_def)
  then have m2: "Exec ''npm install'' pp \<in> set (trace st2)" using s2 by simp
  have "prefix (trace st2) (trace st3)" using steps_extend(3)[of st2 e pp] s3 by simp
  then have m3: "Exec ''npm install'' pp \<in> set (trace st3)"
    using m2 by (meson set_mono_prefix subsetD)
  have "prefix (trace st3) (trace (finish name (step5 e pp (step4 e pp st3))))"
    by (meson prefix_order.trans steps_extend(4,5,6))
  then have m6: "Exec ''npm install'' pp \<in> set (trace (finish name (step5 e pp (step4 e pp st3))))"
    using m3 by (meson set_mono_prefix subsetD)
  show ?thesis
    unfolding run_steps_def Let_def pp_def[symmetric] s1 ok
    using m2 m3 m6 s2 s3 by (cases r2; cases r3) simp_all
qed

lemma script_run_events:
  assumes "dropWhile blank (input st) = ans # rest"
    and "pp = project_path False (cwd e) (trim ans)"
    and "execSync e (create_vite_command (trim ans)) (path_join [cwd e, ''..'']) (files st) = (True, fs1)"
    and "exec e ''npm install'' pp fs1 = (Some 0, fs2)"
    and "exec e ''npm install tailwindcss @tailwindcss/vite'' pp fs2 = (Some 0, fs3)"
  shows "ExecSync (create_vite_command (trim ans)) (path_join [cwd e, ''..''])
           \<in> set (trace (load_module True e st))"
    and "Exec ''npm install'' pp \<in> set (trace (load_module True e st))"
    and "Exec ''npm install tailwindcss @tailwindcss/vite'' pp \<in> set (trace (load_module True e st))"
    and "ConsoleLog (''cd '' @ trim ans) \<in> set (trace (load_module True e st))"
    and "last (trace (load_module True e st)) = ProcessExit 0"
proof -
  have i: "dropWhile blank (input (emit CreateInterface st)) = ans # rest"
    using assms(1) by simp
  have l: "load_module True e st =
     emit (ProcessExit 0) (emit RlClose (snd (createProject False e (emit CreateInterface st))))"
    using run_steps_ok[of e "trim ans" False _ fs1 fs2 fs3] assms(3,4,5) unfolding assms(2)
    by (simp add: load_module_main createProject_named[OF i])
  define st0 where "st0 = (emit CreateInterface st)\<lparr>input := rest,
            trace := trace (emit CreateInterface st) @ ConsoleLog ''Vite + React + Tailwind CSS v4 Setup''
                     # reprompts (length (takeWhile blank (input (emit CreateInterface st))))
                     @ [Question ''Project name:'']\<rparr>"
  have f0: "files st0 = files st" by (simp add: st0_def)
  define st3 where "st3 = snd (step3 e pp (snd (step2 e pp (snd (step1 False e (trim ans) pp st0)))))"
  have r: "snd (createProject False e (emit CreateInterface st))
             = finish (trim ans) (step5 e pp (step4 e pp st3))"
    using assms(3,4,5) unfolding assms(2) createProject_named[OF i] st0_def[symmetric] st3_def
    by (simp add: run_steps_def Let_def step1_eq step2_eq step3_eq f0)
  have m: "{ExecSync (create_vite_command (trim ans)) (path_join [cwd e, ''..'']),
            Exec ''npm install'' pp, Exec ''npm install tailwindcss @tailwindcss/vite'' pp}
           \<subseteq> set (trace st3)"
    unfolding st3_def by (simp add: step1_eq step2_eq step3_eq Let_def)
  have "prefix (trace st3) (trace (finish (trim ans) (step5 e pp (step4 e pp st3))))"
    by (meson prefix_order.trans steps_extend(4,5,6))
  then have s: "set (trace st3) \<subseteq> set (trace (load_module True e st))"
    unfolding l r by (auto dest: set_mono_prefix)
  show "ExecSync (create_vite_command (trim ans)) (path_join [cwd e, ''..''])
           \<in> set (trace (load_module True e st))"
    and "Exec ''npm install'' pp \<in> set (trace (load_module True e st))"
    and "Exec ''npm install tailwindcss @tailwindcss/vite'' pp \<in> set (trace (load_module True e st))"
    using m s by auto
  show "ConsoleLog (''cd '' @ trim ans) \<in> set (trace (load_module True e st))"
    unfolding l r by (simp add: finish_eq)
  show "last (trace (load_module True e st)) = ProcessExit 0"
    unfolding l by simp
qed

section \<open>The claims\<close>

subsection \<open>C1: what the patch inserts\<close>

text \<open>
  C1, as the claim states it, fails. In \<open>config_two_arrays\<close> the first match of the
  regular expression is the \<open>plugins:\<close>, TAB and \<open>[\<close> of the PostCSS options, before
  the array that holds \<open>react()\<close>: the entry lands there, \<open>plugins: [react()]\<close> stays
  as it was, and the TAB of the text is gone.
\<close>

theorem patch_wrong_array_counterexample:
  "includes_str config_two_arrays REACT_IMPORT
   \<and> includes_str config_two_arrays ''plugins: [react()]''
   \<and> \<not> includes_str config_two_arrays TAILWIND_IMPORT
   \<and> \<not> includes_str config_two_arrays TAILWIND_CALL
   \<and> patch_config config_two_arrays =
       REACT_IMPORT @ INSERTED_IMPORT @
       ''\<newline>export default {\<newline>  css: { postcss: { plugins: ['' @ INSERTED_ENTRY @
       ''] } },\<newline>  plugins: [react()],\<newline>}\<newline>''
   \<and> \<not> includes_str (patch_config config_two_arrays) (''plugins: ['' @ INSERTED_ENTRY @ ''react()]'')
   \<and> CHR 0x09 \<in> set config_two_arrays
   \<and> CHR 0x09 \<notin> set (patch_config config_two_arrays)
   \<and> \<not> subseq config_two_arrays (patch_config config_two_arrays)"
  by code_simp

text \<open>
  C1, amended. Let the text hold the react import, first at index \<open>i\<close>, and neither the
  tailwind import nor \<open>tailwindcss()\<close>, and let the first match of
  \<open>/plugins:\s*\[/\<close> be the \<open>plugins: [\<close> of \<open>plugins: [react()]\<close>, at index \<open>j\<close>. Then
  the patched text is the text with two pieces put in and nothing removed: a line feed and
  the tailwind import directly behind the react import, and a line feed, four blanks and
  \<open>tailwindcss(),\<close> directly behind that \<open>plugins: [\<close>. The react import is 40
  characters long, \<open>plugins: [\<close> 10, \<open>plugins: [react()]\<close> 18, and the first piece 44,
  which moves the array by 44 when it comes after the import.
\<close>

theorem patch_config_inserts:
  assumes idx: "indexOf c REACT_IMPORT = Some i"
    and nT: "\<not> includes_str c TAILWIND_IMPORT"
    and nC: "\<not> includes_str c TAILWIND_CALL"
    and sp: "search_plugins c = Some (j, 10)"
    and arr: "take 18 (drop j c) = ''plugins: [react()]''"
  shows "patch_config c =
           insert_text (insert_text c (i + 40) INSERTED_IMPORT)
             (if j < i then j + 10 else j + 54) INSERTED_ENTRY
         \<and> includes_str (patch_config c) (REACT_IMPORT @ INSERTED_IMPORT)
         \<and> includes_str (patch_config c) (''plugins: ['' @ INSERTED_ENTRY @ ''react()]'')
         \<and> subseq c (patch_config c)"
proof -
  from idx nT obtain A B where c: "c = A @ REACT_IMPORT @ B" and A: "length A = i"
    and c1: "patch_import c = A @ REACT_IMPORT @ INSERTED_IMPORT @ B"
    by (rule patch_import_inserts)
  define u where "u = A @ REACT_IMPORT"
  define c' where "c' = u @ INSERTED_IMPORT @ B"
  define head where "head = ''plugins: [''"
  define arg where "arg = ''react()]''"
  have cu: "c = u @ B" and c1u: "patch_import c = c'" using c c1 by (simp_all add: u_def c'_def)
  have lu: "length u = i + 40" by (simp add: u_def A length_REACT_IMPORT)
  have une: "u \<noteq> []" and ul: "last u = CHR 0x27" by (simp_all add: u_def REACT_IMPORT_def)
  have vne: "INSERTED_IMPORT \<noteq> []" and vl: "last INSERTED_IMPORT = CHR 0x27"
    and vc: "CHR '':'' \<notin> set INSERTED_IMPORT"
    by (simp_all add: INSERTED_IMPORT_def TAILWIND_IMPORT_def)
  have ins1: "c' = insert_text c (i + 40) INSERTED_IMPORT"
    using lu by (simp add: insert_text_def cu c'_def)
  \<comment> \<open>the second guard lets the replacement happen\<close>
  have "\<not> sublist TAILWIND_CALL c'"
    using nC tailwind_call_not_created[of u B] by (auto simp: includes_str_iff cu c'_def)
  then have pc: "patch_config c = replace_plugins c' PLUGINS_ENTRY"
    by (simp add: patch_config_def patch_plugins_def c1u includes_str_iff)
  \<comment> \<open>where the first match lies after the first insertion\<close>
  have inside: "length u \<le> j" if "i \<le> j"
  proof (rule search_plugins_not_inside[of u A REACT_IMPORT B j 10])
    show "u = A @ REACT_IMPORT" by (simp add: u_def)
    show "REACT_IMPORT \<noteq> []" "last REACT_IMPORT = CHR 0x27" "CHR '':'' \<notin> set REACT_IMPORT"
      by (simp_all add: REACT_IMPORT_def)
    show "search_plugins (u @ B) = Some (j, 10)" using sp cu by simp
    show "length A \<le> j" using that A by simp
  qed
  define j' where "j' = (if j < i then j else j + 44)"
  have jlt: "(j < length u) = (j < i)"
  proof (cases "i \<le> j")
    case True
    then show ?thesis using inside by simp
  next
    case False
    then show ?thesis using lu by simp
  qed
  have sp': "search_plugins c' = Some (j', 10)"
    using search_plugins_insert[OF une ul vne vl vc, of B j 10] sp cu jlt
    by (simp add: c'_def j'_def length_INSERTED_IMPORT)
  have dr: "take 18 (drop j' c') = take 18 (drop j c)"
  proof (cases "j < i")
    case True
    then have "18 \<le> length (drop j u)" using lu by simp
    then have "take 18 (drop j u @ X) = take 18 (drop j u)" for X by simp
    then have "take 18 (drop j (u @ INSERTED_IMPORT @ B)) = take 18 (drop j (u @ B))"
      using True lu by simp
    then show ?thesis using True by (simp add: j'_def c'_def cu)
  next
    case False
    then have "length u \<le> j" using inside by simp
    then show ?thesis using False by (simp add: j'_def c'_def cu length_INSERTED_IMPORT)
  qed
  have a18: "take 18 (drop j' c') = head @ arg" using dr arr by (simp add: head_def arg_def)
  have lh: "length head = 10" and la: "length arg = 8" by (simp_all add: head_def arg_def)
  have "take 10 (take 18 (drop j' c')) = head" unfolding a18 using lh by simp
  then have t10: "take 10 (drop j' c') = head" by simp
  have "drop 10 (take 18 (drop j' c')) = arg" unfolding a18 using lh by simp
  then have t8: "take 8 (drop (j' + 10) c') = arg" by (simp add: drop_take add.commute)
  have tk: "take (j' + 10) c' = take j' c' @ head" using t10 by (simp add: take_add)
  have rp: "replace_plugins c' PLUGINS_ENTRY = take j' c' @ PLUGINS_ENTRY @ drop (j' + 10) c'"
    by (simp add: replace_plugins_def sp')
  have pe: "PLUGINS_ENTRY = head @ INSERTED_ENTRY" by (simp add: PLUGINS_ENTRY_split head_def)
  have "patch_config c = take j' c' @ (head @ INSERTED_ENTRY) @ drop (j' + 10) c'"
    using pc rp pe by metis
  then have res: "patch_config c = take (j' + 10) c' @ INSERTED_ENTRY @ drop (j' + 10) c'"
    by (simp add: tk)
  have pos: "(if j < i then j + 10 else j + 54) = j' + 10" by (simp add: j'_def)
  have 1: "patch_config c =
           insert_text (insert_text c (i + 40) INSERTED_IMPORT)
             (if j < i then j + 10 else j + 54) INSERTED_ENTRY"
    unfolding pos ins1[symmetric] by (simp add: insert_text_def res)
  \<comment> \<open>the import line directly after the react import\<close>
  have "c' = A @ BOTH_IMPORTS @ B" by (simp add: c'_def u_def BOTH_IMPORTS_split)
  then have "sublist BOTH_IMPORTS c'" by (metis sublist_appendI)
  then have "sublist BOTH_IMPORTS (replace_plugins c' PLUGINS_ENTRY)"
    by (rule replace_plugins_keeps)
       (simp_all add: BOTH_IMPORTS_def REACT_IMPORT_def TAILWIND_IMPORT_def is_space_def)
  then have 2: "includes_str (patch_config c) (REACT_IMPORT @ INSERTED_IMPORT)"
    by (simp add: includes_str_iff pc BOTH_IMPORTS_split)
  \<comment> \<open>the entry directly inside the array\<close>
  define tl' where "tl' = drop 8 (drop (j' + 10) c')"
  have "drop (j' + 10) c' = take 8 (drop (j' + 10) c') @ tl'"
    unfolding tl'_def by (rule append_take_drop_id[symmetric])
  then have "drop (j' + 10) c' = arg @ tl'" using t8 by simp
  then have "patch_config c = take j' c' @ (head @ INSERTED_ENTRY @ arg) @ tl'"
    using res tk by simp
  then have "sublist (head @ INSERTED_ENTRY @ arg) (patch_config c)"
    by (metis sublist_appendI)
  then have 3: "includes_str (patch_config c) (''plugins: ['' @ INSERTED_ENTRY @ ''react()]'')"
    by (simp add: includes_str_iff head_def arg_def)
  \<comment> \<open>nothing of the text read is lost\<close>
  have "subseq c c'" unfolding ins1 by (rule subseq_insert_text)
  moreover have "subseq c' (patch_config c)"
    using subseq_insert_text[of c' "j' + 10" INSERTED_ENTRY] by (simp add: insert_text_def res)
  ultimately have 4: "subseq c (patch_config c)" by (rule subseq_order.order_trans)
  from 1 2 3 4 show ?thesis by blast
qed

theorem patch_config_inserts_witness:
  "indexOf vite_template REACT_IMPORT = Some 36
   \<and> \<not> includes_str vite_template TAILWIND_IMPORT
   \<and> \<not> includes_str vite_template TAILWIND_CALL
   \<and> search_plugins vite_template = Some (138, 10)
   \<and> take 18 (drop 138 vite_template) = ''plugins: [react()]''
   \<and> patch_config vite_template =
         insert_text (insert_text vite_template 76 INSERTED_IMPORT) 192 INSERTED_ENTRY
   \<and> includes_str (patch_config vite_template) (REACT_IMPORT @ INSERTED_IMPORT)
   \<and> includes_str (patch_config vite_template) (''plugins: ['' @ INSERTED_ENTRY @ ''react()]'')
   \<and> subseq vite_template (patch_config vite_template)"
proof -
  have 1: "indexOf vite_template REACT_IMPORT = Some 36" by code_simp
  have 2: "\<not> includes_str vite_template TAILWIND_IMPORT" by code_simp
  have 3: "\<not> includes_str vite_template TAILWIND_CALL" by code_simp
  have 4: "search_plugins vite_template = Some (138, 10)" by code_simp
  have 5: "take 18 (drop 138 vite_template) = ''plugins: [react()]''" by code_simp
  have n: "(36::nat) + 40 = 76" "(if (138::nat) < 36 then 138 + 10 else 138 + 54) = (192::nat)"
    by simp_all
  note r = patch_config_inserts[OF 1 2 3 4 5, unfolded n]
  from 1 2 3 4 5 r show ?thesis by blast
qed

subsection \<open>C2: the patch is idempotent\<close>

text \<open>
  C2. For every text, patching the patched text changes nothing: the two guarded insertions
  applied twice give the text they give applied once, so no import line and no array entry
  is ever doubled.
\<close>

theorem patch_config_idempotent: "patch_config (patch_config c) = patch_config c"
  unfolding patch_config_def by (simp only: patch_import_idem_after patch_plugins_idem)

subsection \<open>C3: a failed install is fatal\<close>

text \<open>
  C3. Let the user give a name at last and the scaffolding succeed. If \<open>npm install\<close> then
  ends with any status but 0, the run logs \<open>Failed to install dependencies\<close> and
  \<open>Setup failed\<close>, prints the error, closes the terminal handle and exits with code 1.
  The trace is given in full: it holds no read and no write of a file, so neither the
  patch of the config nor the CSS step is attempted, and the files are as the two
  subprocesses left them.
\<close>

theorem install_failure_is_fatal:
  assumes "trace st = []"
    and "dropWhile blank (input st) = ans # rest"
    and "execSync e (create_vite_command (trim ans)) (path_join [cwd e, ''..'']) (files st) = (True, fs1)"
    and "exec e ''npm install'' (project_path False (cwd e) (trim ans)) fs1 = (code, fs2)"
    and "code \<noteq> Some 0"
  shows "trace (load_module True e st) =
           [CreateInterface, ConsoleLog ''Vite + React + Tailwind CSS v4 Setup''] @
           reprompts (length (takeWhile blank (input st))) @
           [Question ''Project name:'',
            LogStep ''1/6'' ''Creating Vite project...'',
            SpinnerStart ''Scaffolding project with Vite'',
            ExecSync (create_vite_command (trim ans)) (path_join [cwd e, ''..'']),
            SpinnerSucceed,
            LogSuccess (''Project created at: '' @ project_path False (cwd e) (trim ans)),
            LogStep ''2/6'' ''Installing base dependencies...'',
            SpinnerStart ''Installing React + Vite dependencies'',
            Exec ''npm install'' (project_path False (cwd e) (trim ans)),
            SpinnerFail [],
            LogError ''Failed to install dependencies'',
            SpinnerFail ''Setup failed'',
            ConsoleError (CommandFailed code),
            RlClose,
            ProcessExit 1]
         \<and> \<not> list_ex is_file_event (trace (load_module True e st))
         \<and> files (load_module True e st) = fs2"
proof -
  have i: "dropWhile blank (input (emit CreateInterface st)) = ans # rest"
    using assms(2) by simp
  have nf: "\<not> list_ex is_file_event (reprompts n)" for n
    by (induction n) (simp_all add: reprompts_def is_file_event_def)
  have t: "trace (load_module True e st) =
           [CreateInterface, ConsoleLog ''Vite + React + Tailwind CSS v4 Setup''] @
           reprompts (length (takeWhile blank (input st))) @
           [Question ''Project name:'',
            LogStep ''1/6'' ''Creating Vite project...'',
            SpinnerStart ''Scaffolding project with Vite'',
            ExecSync (create_vite_command (trim ans)) (path_join [cwd e, ''..'']),
            SpinnerSucceed,
            LogSuccess (''Project created at: '' @ project_path False (cwd e) (trim ans)),
            LogStep ''2/6'' ''Installing base dependencies...'',
            SpinnerStart ''Installing React + Vite dependencies'',
            Exec ''npm install'' (project_path False (cwd e) (trim ans)),
            SpinnerFail [],
            LogError ''Failed to install dependencies'',
            SpinnerFail ''Setup failed'',
            ConsoleError (CommandFailed code),
            RlClose,
            ProcessExit 1]"
    and f: "files (load_module True e st) = fs2"
    using assms(1,3,4,5)
    by (simp_all add: load_module_def isGlobal_def createProject_named[OF i] Let_def
          run_steps_def step1_eq step2_eq)
  have "\<not> list_ex is_file_event (trace (load_module True e st))"
    unfolding t by (simp add: nf is_file_event_def)
  with t f show ?thesis by blast
qed

theorem install_failure_is_fatal_witness:
  "trace (load_module True failing_install_env demo_state) =
      [CreateInterface, ConsoleLog ''Vite + React + Tailwind CSS v4 Setup'',
       Question ''Project name:'', LogError ''Project name cannot be empty'',
       Question ''Project name:'',
       LogStep ''1/6'' ''Creating Vite project...'',
       SpinnerStart ''Scaffolding project with Vite'',
       ExecSync ''npm create vite@latest demo -- --template react'' ''/home/u'',
       SpinnerSucceed,
       LogSuccess ''Project created at: /home/u/demo'',
       LogStep ''2/6'' ''Installing base dependencies...'',
       SpinnerStart ''Installing React + Vite dependencies'',
       Exec ''npm install'' ''/home/u/demo'',
       SpinnerFail [],
       LogError ''Failed to install dependencies'',
       SpinnerFail ''Setup failed'',
       ConsoleError (CommandFailed (Some 1)),
       RlClose,
       ProcessExit 1]
   \<and> \<not> list_ex is_file_event (trace (load_module True failing_install_env demo_state))
   \<and> files (load_module True failing_install_env demo_state) = files demo_state"
proof -
  have 1: "trace demo_state = []" by code_simp
  have 2: "dropWhile blank (input demo_state) = '' demo '' # []" by code_simp
  have t: "trim '' demo '' = ''demo''" by code_simp
  have c: "cwd failing_install_env = ''/home/u/work''"
    by (simp add: failing_install_env_def demo_env_def)
  have pj: "path_join [''/home/u/work'', ''..''] = ''/home/u''"
    "project_path False ''/home/u/work'' ''demo'' = ''/home/u/demo''"
    "create_vite_command ''demo'' = ''npm create vite@latest demo -- --template react''"
    "length (takeWhile blank (input demo_state)) = 1"
    by code_simp+
  have 3: "execSync failing_install_env (create_vite_command (trim '' demo ''))
             (path_join [cwd failing_install_env, ''..'']) (files demo_state) = (True, files demo_state)"
    by (simp add: failing_install_env_def demo_env_def)
  have 4: "exec failing_install_env ''npm install''
             (project_path False (cwd failing_install_env) (trim '' demo '')) (files demo_state)
           = (Some 1, files demo_state)"
    by (simp add: failing_install_env_def demo_env_def)
  have 5: "Some (1::int) \<noteq> Some 0" by simp
  have r1: "reprompts 1 = [Question ''Project name:'', LogError ''Project name cannot be empty'']"
    by (simp add: reprompts_def)
  note r = install_failure_is_fatal[OF 1 2 3 4 5, unfolded t c pj r1 append_Cons append_Nil]
  show ?thesis by (rule r)
qed

subsection \<open>C4: the prompt\<close>

text \<open>
  C4, as the claim states it, fails: it speaks of every sequence of inputs. Let a blank
  line and the line \<open> demo \<close> arrive in one chunk, pasted together or piped in. The blank
  line answers the question; \<open> demo \<close>, the first input that is not empty once trimmed,
  comes with it, meets no pending question and is lost. The prompt logs its error and asks
  again, and no line is left: the name \<open>demo\<close> is never returned, and when stdin ends the
  process ends with status 0, having started no subprocess.
\<close>

theorem prompt_pasted_lines_counterexample:
  "dropWhile blank (concat pasted_input) = ['' demo '']
   \<and> trim '' demo '' = ''demo''
   \<and> fst (promptProjectName (stdin_state pasted_input True Map.empty)) = None
   \<and> trace (load_module True demo_env (stdin_state pasted_input True Map.empty)) =
       [CreateInterface, ConsoleLog ''Vite + React + Tailwind CSS v4 Setup'',
        Question ''Project name:'', LogError ''Project name cannot be empty'',
        Question ''Project name:'', EndOfInput, ProcessExit 0]"
  by code_simp

text \<open>
  C4, amended. When every line of input arrives on its own, so that each line answers a
  pending question, the prompt asks until a line is not empty once trimmed, logs the error
  message for every line before it, and returns that line trimmed. The name the prompt
  returns is never empty. When no such line comes, the promise stays pending and
  \<open>createProject\<close> with it: no subprocess has been started. When \<open>createProject\<close> gets
  further, it runs the steps with that non-empty name.
\<close>

theorem prompt_returns_first_nonblank:
  assumes "list_all (\<lambda>c. length c = 1) chunks" and "input st = delivered chunks"
  shows "promptProjectName st =
     (case dropWhile blank (concat chunks) of
        [] \<Rightarrow>
          (None,
           st\<lparr>input := [],
              trace := trace st @ reprompts (length (takeWhile blank (concat chunks)))
                       @ Question ''Project name:''
                         # (if input_ends st then [EndOfInput] else [])\<rparr>)
      | ans # rest \<Rightarrow>
          (Some (trim ans),
           st\<lparr>input := rest,
              trace := trace st @ reprompts (length (takeWhile blank (concat chunks)))
                       @ [Question ''Project name:'']\<rparr>))
   \<and> fst (promptProjectName st) \<noteq> Some []
   \<and> (fst (createProject global e st) = None \<longrightarrow>
        filter is_subprocess (trace (snd (createProject global e st)))
          = filter is_subprocess (trace st))
   \<and> (fst (createProject global e st) \<noteq> None \<longrightarrow>
        (\<exists>ans rest. dropWhile blank (concat chunks) = ans # rest \<and> trim ans \<noteq> []
           \<and> createProject global e st
               = (Some (fst (run_steps global e (trim ans)
                    (snd (promptProjectName
                       (emit (ConsoleLog ''Vite + React + Tailwind CSS v4 Setup'') st))))),
                  snd (run_steps global e (trim ans)
                    (snd (promptProjectName
                       (emit (ConsoleLog ''Vite + React + Tailwind CSS v4 Setup'') st)))))))"
proof -
  have i: "concat chunks = input st"
    using assms by (simp add: delivered_one_per_chunk)
  have 1: "promptProjectName st =
     (case dropWhile blank (input st) of
        [] \<Rightarrow>
          (None,
           st\<lparr>input := [],
              trace := trace st @ reprompts (length (takeWhile blank (input st)))
                       @ Question ''Project name:''
                         # (if input_ends st then [EndOfInput] else [])\<rparr>)
      | ans # rest \<Rightarrow>
          (Some (trim ans),
           st\<lparr>input := rest,
              trace := trace st @ reprompts (length (takeWhile blank (input st)))
                       @ [Question ''Project name:'']\<rparr>))"
  proof (cases "dropWhile blank (input st)")
    case Nil
    show ?thesis unfolding promptProjectName_loop[OF refl] Nil by simp
  next
    case (Cons a list)
    show ?thesis unfolding promptProjectName_loop[OF refl] Cons by simp
  qed
  have ns: "filter is_subprocess (reprompts n) = []" for n
    by (induction n) (simp_all add: reprompts_def is_subprocess_def)
  have 3: "filter is_subprocess (trace (snd (createProject global e st)))
          = filter is_subprocess (trace st)" if "fst (createProject global e st) = None"
  proof (cases "dropWhile blank (input st)")
    case Nil
    then show ?thesis by (simp add: createProject_pending ns is_subprocess_def)
  next
    case (Cons a list)
    then show ?thesis using that by (simp add: createProject_named)
  qed
  have 4: "\<exists>ans rest. dropWhile blank (input st) = ans # rest \<and> trim ans \<noteq> []
           \<and> createProject global e st
               = (Some (fst (run_steps global e (trim ans)
                    (snd (promptProjectName
                       (emit (ConsoleLog ''Vite + React + Tailwind CSS v4 Setup'') st))))),
                  snd (run_steps global e (trim ans)
                    (snd (promptProjectName
                       (emit (ConsoleLog ''Vite + React + Tailwind CSS v4 Setup'') st)))))"
    if "fst (createProject global e st) \<noteq> None"
  proof (cases "dropWhile blank (input st)")
    case Nil
    then show ?thesis using that by (simp add: createProject_pending)
  next
    case (Cons a list)
    then have "\<not> blank a" by (metis hd_dropWhile list.discI list.sel(1))
    then have ne: "trim a \<noteq> []" by (simp add: blank_def)
    define st0 where "st0 = emit (ConsoleLog ''Vite + React + Tailwind CSS v4 Setup'') st"
    have d0: "dropWhile blank (input st0) = a # list" using Cons by (simp add: st0_def)
    have "fst (promptProjectName st0) = Some (trim a)"
      by (simp add: promptProjectName_loop[OF refl] d0)
    then have "createProject global e st =
        (Some (fst (run_steps global e (trim a) (snd (promptProjectName st0)))),
         snd (run_steps global e (trim a) (snd (promptProjectName st0))))"
      unfolding createProject_def st0_def[symmetric]
      by (cases "promptProjectName st0") (simp add: split_beta)
    then show ?thesis using Cons ne unfolding st0_def by blast
  qed
  from 1 promptProjectName_nonempty[of st] 3 4 show ?thesis unfolding i by blast
qed

theorem prompt_returns_first_nonblank_witness:
  "list_all (\<lambda>c. length c = 1) typed_input
   \<and> concat typed_input = concat pasted_input
   \<and> input demo_state = delivered typed_input
   \<and> promptProjectName demo_state =
     (Some ''demo'',
      demo_state\<lparr>input := [],
        trace := [Question ''Project name:'', LogError ''Project name cannot be empty'',
                  Question ''Project name:'']\<rparr>)
   \<and> fst (createProject False demo_env demo_state) \<noteq> None
   \<and> dropWhile blank (concat typed_input) = [ '' demo '' ]
   \<and> trim '' demo '' = ''demo''
   \<and> input blank_only_state = delivered [[''''], [''   '']]
   \<and> fst (createProject False demo_env blank_only_state) = None
   \<and> filter is_subprocess (trace (snd (createProject False demo_env blank_only_state))) = []"
proof -
  have h: "list_all (\<lambda>c. length c = 1) typed_input"
    and hi: "input demo_state = delivered typed_input"
    and cc: "concat typed_input = concat pasted_input"
    and g: "list_all (\<lambda>c. length c = 1) [[''''], [''   '']]"
    and gi: "input blank_only_state = delivered [[''''], [''   '']]"
    by code_simp+
  note t = prompt_returns_first_nonblank[OF h hi, of False demo_env]
  note u = prompt_returns_first_nonblank[OF g gi, of False demo_env]
  have dc: "dropWhile blank (concat typed_input) = [ '' demo '' ]"
    and kc: "length (takeWhile blank (concat typed_input)) = 1"
    and d: "dropWhile blank (input demo_state) = [ '' demo '' ]"
    and tr: "trim '' demo '' = ''demo''" and e: "trace demo_state = []"
    and n: "dropWhile blank (input blank_only_state) = []"
    and c: "filter is_subprocess (trace blank_only_state) = []"
    by code_simp+
  have r: "reprompts 1 = [Question ''Project name:'', LogError ''Project name cannot be empty'']"
    by (simp add: reprompts_def)
  have a: "fst (createProject False demo_env demo_state) \<noteq> None"
    by (simp add: createProject_named[OF d])
  have b: "fst (createProject False demo_env blank_only_state) = None"
    by (simp add: createProject_pending[OF n])
  from t have "promptProjectName demo_state =
     (case dropWhile blank (concat typed_input) of
        [] \<Rightarrow>
          (None,
           demo_state\<lparr>input := [],
              trace := trace demo_state @ reprompts (length (takeWhile blank (concat typed_input)))
                       @ Question ''Project name:''
                         # (if input_ends demo_state then [EndOfInput] else [])\<rparr>)
      | ans # rest \<Rightarrow>
          (Some (trim ans),
           demo_state\<lparr>input := rest,
              trace := trace demo_state @ reprompts (length (takeWhile blank (concat typed_input)))
                       @ [Question ''Project name:'']\<rparr>))"
    by (rule conjunct1)
  then have 1: "promptProjectName demo_state =
     (Some ''demo'',
      demo_state\<lparr>input := [],
        trace := [Question ''Project name:'', LogError ''Project name cannot be empty'',
                  Question ''Project name:'']\<rparr>)"
    unfolding dc kc e r by (simp add: tr)
  from u have "fst (createProject False demo_env blank_only_state) = None \<longrightarrow>
        filter is_subprocess (trace (snd (createProject False demo_env blank_only_state)))
          = filter is_subprocess (trace blank_only_state)"
    by blast
  with b c
  have 2: "filter is_subprocess (trace (snd (createProject False demo_env blank_only_state))) = []"
    by simp
  from 1 2 a b dc tr h hi cc gi show ?thesis by blast
qed

subsection \<open>C5: the CSS files are overwritten\<close>

text \<open>
  C5. When step 5 ends with its success message, both \<open>src/index.css\<close> and \<open>src/App.css\<close>
  under the project path hold exactly \<open>@import "tailwindcss";\<close> and a line feed, whatever
  they held before: the write replaces the content.
\<close>

theorem css_files_overwritten:
  assumes "last (trace (step5 e projectPath st)) = LogSuccess ''CSS files configured''"
  shows "files (step5 e projectPath st) (path_join [projectPath, ''src'', ''index.css''])
           = Some ''@import \"tailwindcss\";\<newline>''
       \<and> files (step5 e projectPath st) (path_join [projectPath, ''src'', ''App.css''])
           = Some ''@import \"tailwindcss\";\<newline>''"
proof -
  define p1 where "p1 = path_join [projectPath, ''src'', ''index.css'']"
  define p2 where "p2 = path_join [projectPath, ''src'', ''App.css'']"
  define fs1 where "fs1 = (if can_write e (files st) p1 then (files st)(p1 \<mapsto> TAILWIND_CSS) else files st)"
  have ok: "can_write e (files st) p1 \<and> can_write e fs1 p2"
  proof (rule ccontr)
    assume "\<not> (can_write e (files st) p1 \<and> can_write e fs1 p2)"
    then have "last (trace (step5 e projectPath st)) =
                 Warn ''Manually add @import \"tailwindcss\" to CSS files''"
      unfolding step5_eq Let_def p1_def[symmetric] p2_def[symmetric] fs1_def[symmetric] by simp
    with assms show False by simp
  qed
  then have a: "can_write e (files st) p1" and b: "can_write e fs1 p2" by simp_all
  have f1: "fs1 = (files st)(p1 \<mapsto> TAILWIND_CSS)" using a by (simp add: fs1_def)
  have "files (step5 e projectPath st) = (if can_write e fs1 p2 then fs1(p2 \<mapsto> TAILWIND_CSS) else fs1)"
    unfolding step5_eq Let_def p1_def[symmetric] p2_def[symmetric] fs1_def[symmetric] by simp
  then have "files (step5 e projectPath st) = (files st)(p1 \<mapsto> TAILWIND_CSS, p2 \<mapsto> TAILWIND_CSS)"
    using b f1 by simp
  then show ?thesis
    unfolding p1_def[symmetric] p2_def[symmetric] TAILWIND_CSS_def[symmetric] by simp
qed

theorem css_files_overwritten_witness:
  "files demo_state ''/home/u/demo/src/index.css'' = Some ''body { margin: 0 }''
   \<and> last (trace (step5 demo_env ''/home/u/demo'' demo_state)) = LogSuccess ''CSS files configured''
   \<and> files (step5 demo_env ''/home/u/demo'' demo_state) ''/home/u/demo/src/index.css''
       = Some ''@import \"tailwindcss\";\<newline>''
   \<and> files (step5 demo_env ''/home/u/demo'' demo_state) ''/home/u/demo/src/App.css''
       = Some ''@import \"tailwindcss\";\<newline>''"
proof -
  have h: "last (trace (step5 demo_env ''/home/u/demo'' demo_state)) = LogSuccess ''CSS files configured''"
    by code_simp
  have p: "path_join [''/home/u/demo'', ''src'', ''index.css''] = ''/home/u/demo/src/index.css''"
    "path_join [''/home/u/demo'', ''src'', ''App.css''] = ''/home/u/demo/src/App.css''"
    by code_simp+
  have f: "files demo_state ''/home/u/demo/src/index.css'' = Some ''body { margin: 0 }''"
    by code_simp
  note r = css_files_overwritten[OF h, unfolded p]
  from h f r show ?thesis by blast
qed

subsection \<open>C6: when the patch is a no-op\<close>




subsection \<open>C7: the project path\<close>

text \<open>
  C7. The project path is to be the working directory joined with the name. The program
  takes that path only when \<open>isGlobal\<close> holds, and \<open>isGlobal\<close>, which the comment of line 8
  has tell a global package from a direct run, is \<open>require.main !== module\<close>: it is false
  in every run of the file as a script, the installed command included, and only such a
  run gets to the prompt by itself. Started in \<open>/home/u/work\<close> and given the name \<open>demo\<close>,
  with every subprocess successful, the script has Vite generate the project in \<open>/home/u\<close>,
  runs both installs in \<open>/home/u/demo\<close> and returns \<open>/home/u/demo\<close>, where the working
  directory joined with the name is \<open>/home/u/work/demo\<close>; and its last lines still tell
  the user \<open>cd demo\<close>, which from \<open>/home/u/work\<close> leads to no project.
\<close>

theorem script_run_project_path:
  "isGlobal True = False
   \<and> cwd demo_env = ''/home/u/work''
   \<and> input empty_project_state = [''demo'']
   \<and> path_join [cwd demo_env, ''demo''] = ''/home/u/work/demo''
   \<and> fst (createProject (isGlobal True) demo_env empty_project_state) = Some (Inr ''/home/u/demo'')
   \<and> ExecSync ''npm create vite@latest demo -- --template react'' ''/home/u''
        \<in> set (trace (load_module True demo_env empty_project_state))
   \<and> Exec ''npm install'' ''/home/u/demo''
        \<in> set (trace (load_module True demo_env empty_project_state))
   \<and> Exec ''npm install tailwindcss @tailwindcss/vite'' ''/home/u/demo''
        \<in> set (trace (load_module True demo_env empty_project_state))
   \<and> ConsoleLog ''cd demo'' \<in> set (trace (load_module True demo_env empty_project_state))
   \<and> last (trace (load_module True demo_env empty_project_state)) = ProcessExit 0"
proof -
  have cmd: "create_vite_command ''demo'' = ''npm create vite@latest demo -- --template react''"
    and up: "path_join [''/home/u/work'', ''..''] = ''/home/u''"
    and cd: "''cd '' @ ''demo'' = ''cd demo''"
    and inp: "input empty_project_state = [''demo'']"
    by code_simp+
  have pp: "''/home/u/demo'' = project_path False (cwd demo_env) (trim ''demo'')"
    by (simp add: demo_env_simps demo_paths empty_project_input)
  note ev = script_run_events[OF empty_project_input(1) pp, of _ _ _,
              unfolded demo_env_simps empty_project_input(2) cmd up cd, OF refl refl refl]
  have res: "fst (createProject False demo_env empty_project_state) = Some (Inr ''/home/u/demo'')"
    using demo_env_result[OF empty_project_input(1), of False]
    by (simp add: demo_paths empty_project_input)
  from res ev inp show ?thesis
    by (simp add: isGlobal_def demo_env_simps demo_paths)
qed

subsection \<open>C8: an unreadable config degrades the run\<close>

text \<open>
  C8. Let steps 1 to 3 succeed and the read of \<open>vite.config.js\<close> fail. The failure is
  caught in step 4, which logs the warning; steps 5 and 6 follow, the terminal handle is
  closed and the run exits with code 0. The trace is given in full; only the end of step 5
  depends on whether the file system takes the two CSS files.
\<close>

theorem config_read_failure_degrades:
  assumes "trace st = []"
    and "dropWhile blank (input st) = ans # rest"
    and "pp = project_path False (cwd e) (trim ans)"
    and "execSync e (create_vite_command (trim ans)) (path_join [cwd e, ''..'']) (files st) = (True, fs1)"
    and "exec e ''npm install'' pp fs1 = (Some 0, fs2)"
    and "exec e ''npm install tailwindcss @tailwindcss/vite'' pp fs2 = (Some 0, fs3)"
    and "fs3 (path_join [pp, ''vite.config.js'']) = None"
  shows "trace (load_module True e st) =
           [CreateInterface, ConsoleLog ''Vite + React + Tailwind CSS v4 Setup''] @
           reprompts (length (takeWhile blank (input st))) @
           [Question ''Project name:'',
            LogStep ''1/6'' ''Creating Vite project...'',
            SpinnerStart ''Scaffolding project with Vite'',
            ExecSync (create_vite_command (trim ans)) (path_join [cwd e, ''..'']),
            SpinnerSucceed,
            LogSuccess (''Project created at: '' @ pp),
            LogStep ''2/6'' ''Installing base dependencies...'',
            SpinnerStart ''Installing React + Vite dependencies'',
            Exec ''npm install'' pp,
            SpinnerSucceed,
            LogSuccess ''Base dependencies installed'',
            LogStep ''3/6'' ''Adding Tailwind CSS...'',
            SpinnerStart ''Installing Tailwind CSS v4'',
            Exec ''npm install tailwindcss @tailwindcss/vite'' pp,
            SpinnerSucceed,
            LogSuccess ''Tailwind CSS installed'',
            LogStep ''4/6'' ''Configuring Vite...'',
            SpinnerStart ''Updating vite.config.js'',
            ReadFile (path_join [pp, ''vite.config.js'']),
            SpinnerFail ''Couldn't auto-configure Vite'',
            Warn ''Manually add Tailwind to vite.config.js'',
            LogStep ''5/6'' ''Setting up CSS...'',
            SpinnerStart ''Configuring CSS files'',
            WriteFile (path_join [pp, ''src'', ''index.css'']) TAILWIND_CSS,
            WriteFile (path_join [pp, ''src'', ''App.css'']) TAILWIND_CSS] @
           (if can_write e fs3 (path_join [pp, ''src'', ''index.css'']) \<and>
               can_write e (fs3(path_join [pp, ''src'', ''index.css''] \<mapsto> TAILWIND_CSS))
                 (path_join [pp, ''src'', ''App.css''])
            then [SpinnerSucceed, LogSuccess ''CSS files configured'']
            else [SpinnerFail ''Couldn't configure CSS files'',
                  Warn ''Manually add @import \"tailwindcss\" to CSS files'']) @
           [LogStep ''6/6'' ''Finalizing setup...'',
            ConsoleLog ''Setup complete!'',
            ConsoleLog ''Next steps:'',
            ConsoleLog (''cd '' @ trim ans),
            ConsoleLog ''npm run dev'',
            RlClose,
            ProcessExit 0]"
proof -
  have i: "dropWhile blank (input (emit CreateInterface st)) = ans # rest"
    using assms(2) by simp
  show ?thesis
    using assms(1,4,5,6,7) unfolding assms(3)
    by (simp add: load_module_def isGlobal_def createProject_named[OF i] Let_def
          run_steps_def step1_eq step2_eq step3_eq step4_eq step5_eq finish_eq)
qed

theorem config_read_failure_degrades_witness:
  "files empty_project_state ''/home/u/demo/vite.config.js'' = None
   \<and> trace (load_module True demo_env empty_project_state) =
      [CreateInterface, ConsoleLog ''Vite + React + Tailwind CSS v4 Setup'',
       Question ''Project name:'',
       LogStep ''1/6'' ''Creating Vite project...'',
       SpinnerStart ''Scaffolding project with Vite'',
       ExecSync ''npm create vite@latest demo -- --template react'' ''/home/u'',
       SpinnerSucceed,
       LogSuccess ''Project created at: /home/u/demo'',
       LogStep ''2/6'' ''Installing base dependencies...'',
       SpinnerStart ''Installing React + Vite dependencies'',
       Exec ''npm install'' ''/home/u/demo'',
       SpinnerSucceed,
       LogSuccess ''Base dependencies installed'',
       LogStep ''3/6'' ''Adding Tailwind CSS...'',
       SpinnerStart ''Installing Tailwind CSS v4'',
       Exec ''npm install tailwindcss @tailwindcss/vite'' ''/home/u/demo'',
       SpinnerSucceed,
       LogSuccess ''Tailwind CSS installed'',
       LogStep ''4/6'' ''Configuring Vite...'',
       SpinnerStart ''Updating vite.config.js'',
       ReadFile ''/home/u/demo/vite.config.js'',
       SpinnerFail ''Couldn't auto-configure Vite'',
       Warn ''Manually add Tailwind to vite.config.js'',
       LogStep ''5/6'' ''Setting up CSS...'',
       SpinnerStart ''Configuring CSS files'',
       WriteFile ''/home/u/demo/src/index.css'' TAILWIND_CSS,
       WriteFile ''/home/u/demo/src/App.css'' TAILWIND_CSS,
       SpinnerSucceed,
       LogSuccess ''CSS files configured'',
       LogStep ''6/6'' ''Finalizing setup...'',
       ConsoleLog ''Setup complete!'',
       ConsoleLog ''Next steps:'',
       ConsoleLog ''cd demo'',
       ConsoleLog ''npm run dev'',
       RlClose,
       ProcessExit 0]"
proof -
  have 1: "trace empty_project_state = []" by code_simp
  have 2: "dropWhile blank (input empty_project_state) = ''demo'' # []" by code_simp
  have 3: "''/home/u/demo'' = project_path False (cwd demo_env) (trim ''demo'')" by code_simp
  have 4: "execSync demo_env (create_vite_command (trim ''demo'')) (path_join [cwd demo_env, ''..''])
             (files empty_project_state) = (True, Map.empty)"
    by (simp add: demo_env_def empty_project_state_def)
  have 5: "exec demo_env ''npm install'' ''/home/u/demo'' Map.empty = (Some 0, Map.empty)"
    by (simp add: demo_env_def)
  have 6: "exec demo_env ''npm install tailwindcss @tailwindcss/vite'' ''/home/u/demo'' Map.empty
           = (Some 0, Map.empty)"
    by (simp add: demo_env_def)
  have 7: "(Map.empty :: files) (path_join [''/home/u/demo'', ''vite.config.js'']) = None" by simp
  have t: "trim ''demo'' = ''demo''" "cwd demo_env = ''/home/u/work''"
    "path_join [''/home/u/work'', ''..''] = ''/home/u''"
    "path_join [''/home/u/demo'', ''vite.config.js''] = ''/home/u/demo/vite.config.js''"
    "path_join [''/home/u/demo'', ''src'', ''index.css''] = ''/home/u/demo/src/index.css''"
    "path_join [''/home/u/demo'', ''src'', ''App.css''] = ''/home/u/demo/src/App.css''"
    "create_vite_command ''demo'' = ''npm create vite@latest demo -- --template react''"
    "takeWhile blank (input empty_project_state) = []"
    by code_simp+
  have w: "can_write demo_env fs p = True" for fs p by (simp add: demo_env_def)
  have f: "files empty_project_state ''/home/u/demo/vite.config.js'' = None" by code_simp
  note r = config_read_failure_degrades[OF 1 2 3 4 5 6 7]
  have "trace (load_module True demo_env empty_project_state) =
      [CreateInterface, ConsoleLog ''Vite + React + Tailwind CSS v4 Setup'',
       Question ''Project name:'',
       LogStep ''1/6'' ''Creating Vite project...'',
       SpinnerStart ''Scaffolding project with Vite'',
       ExecSync ''npm create vite@latest demo -- --template react'' ''/home/u'',
       SpinnerSucceed,
       LogSuccess ''Project created at: /home/u/demo'',
       LogStep ''2/6'' ''Installing base dependencies...'',
       SpinnerStart ''Installing React + Vite dependencies'',
       Exec ''npm install'' ''/home/u/demo'',
       SpinnerSucceed,
       LogSuccess ''Base dependencies installed'',
       LogStep ''3/6'' ''Adding Tailwind CSS...'',
       SpinnerStart ''Installing Tailwind CSS v4'',
       Exec ''npm install tailwindcss @tailwindcss/vite'' ''/home/u/demo'',
       SpinnerSucceed,
       LogSuccess ''Tailwind CSS installed'',
       LogStep ''4/6'' ''Configuring Vite...'',
       SpinnerStart ''Updating vite.config.js'',
       ReadFile ''/home/u/demo/vite.config.js'',
       SpinnerFail ''Couldn't auto-configure Vite'',
       Warn ''Manually add Tailwind to vite.config.js'',
       LogStep ''5/6'' ''Setting up CSS...'',
       SpinnerStart ''Configuring CSS files'',
       WriteFile ''/home/u/demo/src/index.css'' TAILWIND_CSS,
       WriteFile ''/home/u/demo/src/App.css'' TAILWIND_CSS,
       SpinnerSucceed,
       LogSuccess ''CSS files configured'',
       LogStep ''6/6'' ''Finalizing setup...'',
       ConsoleLog ''Setup complete!'',
       ConsoleLog ''Next steps:'',
       ConsoleLog ''cd demo'',
       ConsoleLog ''npm run dev'',
       RlClose,
       ProcessExit 0]"
    unfolding r by (simp add: t w reprompts_def)
  with f show ?thesis by blast
qed

subsection \<open>C9: the terminal handle\<close>




subsection \<open>C10: the config is always written back\<close>

text \<open>
  C10, as the claim states it, fails. A config file that can be read need not be
  writable. With a text that holds neither the react import nor a match of
  \<open>/plugins:\s*\[/\<close>, on a file system that takes no write, step 4 calls the write
  with the text unchanged, the write is rejected, and the step ends in its \<open>catch\<close>:
  the spinner fails and the warning is printed, with no success message.
\<close>

theorem config_write_rejected_counterexample:
  "files plain_state ''/home/u/demo/vite.config.js'' = Some plain_config
   \<and> \<not> includes_str plain_config REACT_IMPORT
   \<and> search_plugins plain_config = None
   \<and> trace (step4 read_only_env ''/home/u/demo'' plain_state) =
       [LogStep ''4/6'' ''Configuring Vite...'',
        SpinnerStart ''Updating vite.config.js'',
        ReadFile ''/home/u/demo/vite.config.js'',
        WriteFile ''/home/u/demo/vite.config.js'' plain_config,
        SpinnerFail ''Couldn't auto-configure Vite'',
        Warn ''Manually add Tailwind to vite.config.js'']"
  by code_simp

text \<open>
  C10, amended. When the read succeeds, step 4 always calls the write with the patched
  text, whatever the two guards did. If the text holds neither the react import nor a match
  of \<open>/plugins:\s*\[/\<close>, the text handed to the write is the text read, byte for byte.
  When the file system takes the write, the step ends with its success message, with no
  warning, and the file holds the text written; the step returns a state and raises
  nothing.
\<close>

theorem config_written_back:
  assumes "files st (path_join [pp, ''vite.config.js'']) = Some config"
  shows "WriteFile (path_join [pp, ''vite.config.js'']) (patch_config config)
           \<in> set (trace (step4 e pp st))
       \<and> (\<not> includes_str config REACT_IMPORT \<and> search_plugins config = None
            \<longrightarrow> patch_config config = config)
       \<and> (can_write e (files st) (path_join [pp, ''vite.config.js'']) \<longrightarrow>
            trace (step4 e pp st) =
              trace st @
              [LogStep ''4/6'' ''Configuring Vite...'',
               SpinnerStart ''Updating vite.config.js'',
               ReadFile (path_join [pp, ''vite.config.js'']),
               WriteFile (path_join [pp, ''vite.config.js'']) (patch_config config),
               SpinnerSucceed,
               LogSuccess ''Vite configured for Tailwind'']
            \<and> files (step4 e pp st)
                = (files st)(path_join [pp, ''vite.config.js''] \<mapsto> patch_config config))"
proof -
  have "patch_config config = config"
    if "\<not> includes_str config REACT_IMPORT" "search_plugins config = None"
  proof -
    have "patch_import config = config"
      using that(1) by (simp add: patch_import_def includes_str_iff replace_str_absent)
    then show ?thesis
      using that(2) by (simp add: patch_config_def patch_plugins_def replace_plugins_absent)
  qed
  then show ?thesis using assms by (simp add: step4_eq Let_def)
qed

theorem config_written_back_witness:
  "files plain_state (path_join [''/home/u/demo'', ''vite.config.js'']) = Some plain_config
   \<and> \<not> includes_str plain_config REACT_IMPORT
   \<and> search_plugins plain_config = None
   \<and> can_write demo_env (files plain_state) (path_join [''/home/u/demo'', ''vite.config.js''])
   \<and> trace (step4 demo_env ''/home/u/demo'' plain_state) =
       [LogStep ''4/6'' ''Configuring Vite...'',
        SpinnerStart ''Updating vite.config.js'',
        ReadFile ''/home/u/demo/vite.config.js'',
        WriteFile ''/home/u/demo/vite.config.js'' plain_config,
        SpinnerSucceed,
        LogSuccess ''Vite configured for Tailwind'']
   \<and> files (step4 demo_env ''/home/u/demo'' plain_state) ''/home/u/demo/vite.config.js''
       = Some plain_config"
proof -
  have 1: "files plain_state (path_join [''/home/u/demo'', ''vite.config.js'']) = Some plain_config"
    and 2: "\<not> includes_str plain_config REACT_IMPORT"
    and 3: "search_plugins plain_config = None"
    and p: "path_join [''/home/u/demo'', ''vite.config.js''] = ''/home/u/demo/vite.config.js''"
    and t: "trace plain_state = []"
    by code_simp+
  have w: "can_write demo_env (files plain_state) (path_join [''/home/u/demo'', ''vite.config.js''])"
    by (simp add: demo_env_simps)
  note r = config_written_back[OF 1, of demo_env]
  from r 2 3 have pc: "patch_config plain_config = plain_config" by blast
  from r w have "trace (step4 demo_env ''/home/u/demo'' plain_state) =
       [LogStep ''4/6'' ''Configuring Vite...'',
        SpinnerStart ''Updating vite.config.js'',
        ReadFile ''/home/u/demo/vite.config.js'',
        WriteFile ''/home/u/demo/vite.config.js'' plain_config,
        SpinnerSucceed,
        LogSuccess ''Vite configured for Tailwind'']"
    by (simp add: pc p t)
  moreover from r w
  have "files (step4 demo_env ''/home/u/demo'' plain_state) ''/home/u/demo/vite.config.js''
       = Some plain_config"
    by (simp add: pc p)
  ultimately show ?thesis using 1 2 3 w by blast
qed

end
